theory Spec2Isabelle
  imports Main "HOL-Library.AList" "HOL-Library.Sublist"
begin

section \<open>Python values, exceptions and dictionaries\<close>

text \<open>
  JSON values as Python holds them after \<^verbatim>\<open>json.loads\<close>. An object is an association
  list in insertion order, as a Python \<^verbatim>\<open>dict\<close> is; \<open>AList.update\<close> is the assignment
  \<^verbatim>\<open>d[k] = v\<close>: it replaces the value of a key in place and appends a new key at the end.
\<close>

datatype json =
    JNull
  | JBool bool
  | JInt int
  | JStr string
  | JArr "json list"
  | JObj "(string \<times> json) list"

text \<open>
  The exceptions that the modelled code raises or lets through. Each carries what
  \<^verbatim>\<open>str(exception)\<close> needs. \<open>RuntimeError\<close> is the class that the project handler raises
  itself; \<open>OSError\<close> and \<open>ShutilError\<close> come from the file system calls of the standard
  library; \<open>RequestFailedError\<close> is the typed error of the remote client; \<open>OtherError\<close>
  stands for every other exception class of an external collaborator.
\<close>

datatype py_error =
    KeyError string
  | ValueError string
  | TypeError string
  | AttributeError string
  | RuntimeError string
  | StopIteration
  | OSError string
  | ShutilError string
  | RequestFailedError string
  | OtherError string

definition apostrophe :: char where
  "apostrophe = CHR 0x27"


text \<open>\<^verbatim>\<open>str(n)\<close> of a natural number, as an f-string formats an index.\<close>

definition digit :: "nat \<Rightarrow> char" where
  "digit d = ''0123456789'' ! d"

fun str_nat :: "nat \<Rightarrow> string" where
  "str_nat n = (if n < 10 then [digit n] else str_nat (n div 10) @ [digit (n mod 10)])"

declare str_nat.simps [simp del]

text \<open>\<^verbatim>\<open>s.lstrip("/")\<close>: the string without its leading slashes.\<close>

definition lstrip_slash :: "string \<Rightarrow> string" where
  "lstrip_slash s = dropWhile (\<lambda>c. c = CHR ''/'') s"

section \<open>Paths and the local file system\<close>

text \<open>
  A \<^verbatim>\<open>pathlib.Path\<close> is the list of its components below the root \<^verbatim>\<open>/\<close>. Joining a path
  with a string (\<^verbatim>\<open>path / name\<close>) splits the string at the slashes and drops the empty
  components and the components \<^verbatim>\<open>.\<close>, as pathlib does; a string that starts with a slash
  is absolute and replaces the path on the left. A component \<^verbatim>\<open>..\<close> is kept, as pathlib
  keeps it; the file system below reads it as a name and does not resolve it.
\<close>

type_synonym path = "string list"

fun components :: "string \<Rightarrow> string list" where
  "components [] = [[]]"
| "components (c # cs) =
     (if c = CHR ''/'' then [] # components cs
      else (case components cs of [] \<Rightarrow> [[c]] | x # xs \<Rightarrow> (c # x) # xs))"

definition parts :: "string \<Rightarrow> path" where
  "parts s = filter (\<lambda>x. x \<noteq> [] \<and> x \<noteq> ''.'') (components s)"

definition path_join :: "path \<Rightarrow> string \<Rightarrow> path" where
  "path_join p s = (case s of c # cs \<Rightarrow> (if c = CHR ''/'' then parts s else p @ parts s)
                    | [] \<Rightarrow> p)"

text \<open>\<^verbatim>\<open>str(path)\<close> and \<^verbatim>\<open>path.as_posix()\<close> of an absolute path.\<close>

definition path_str :: "path \<Rightarrow> string" where
  "path_str p = (if p = [] then ''/'' else concat (map (\<lambda>c. CHR ''/'' # c) p))"

text \<open>
  The file system is the list of the paths that exist, each with what it is: a
  directory, a regular file with its bytes, or a regular file that holds a JSON object
  (the sidecar of a project, kept parsed). The root \<open>[]\<close> is a directory.
\<close>

datatype node =
    Directory
  | RegularFile string
  | ConfigFile "(string \<times> json) list"

type_synonym fs = "(path \<times> node) list"

definition node_at :: "fs \<Rightarrow> path \<Rightarrow> node option" where
  "node_at fs p = (if p = [] then Some Directory else map_of fs p)"

definition path_exists :: "fs \<Rightarrow> path \<Rightarrow> bool" where
  "path_exists fs p = (node_at fs p \<noteq> None)"

definition is_dir :: "fs \<Rightarrow> path \<Rightarrow> bool" where
  "is_dir fs p = (node_at fs p = Some Directory)"

text \<open>
  \<^verbatim>\<open>path.mkdir(parents=True, exist_ok=True)\<close>: every missing directory on the way is
  created; the call fails where a component of the way exists and is no directory. The
  second argument is the part of the way that is already known to be a directory.
\<close>

fun mkdirs :: "fs \<Rightarrow> path \<Rightarrow> string list \<Rightarrow> py_error + fs" where
  "mkdirs fs made [] = Inr fs"
| "mkdirs fs made (c # cs) =
     (case node_at fs (made @ [c]) of
        None \<Rightarrow> mkdirs (fs @ [(made @ [c], Directory)]) (made @ [c]) cs
      | Some Directory \<Rightarrow> mkdirs fs (made @ [c]) cs
      | Some _ \<Rightarrow> Inl (OSError (''Not a directory: '' @ path_str (made @ [c]))))"

definition mkdir_parents :: "fs \<Rightarrow> path \<Rightarrow> py_error + fs" where
  "mkdir_parents fs p = mkdirs fs [] p"

text \<open>
  Opening a path for writing and writing the content: it fails on a directory and
  where the parent is no directory, and creates or truncates the file otherwise.
\<close>

definition write_node :: "fs \<Rightarrow> path \<Rightarrow> node \<Rightarrow> py_error + fs" where
  "write_node fs p n =
     (if is_dir fs p then Inl (OSError (''Is a directory: '' @ path_str p))
      else if \<not> is_dir fs (butlast p)
        then Inl (OSError (''No such file or directory: '' @ path_str p))
      else Inr (AList.update p n fs))"

text \<open>
  A list of paths is a file system when no path is listed twice and every listed path
  lies in a directory.
\<close>

definition wf_fs :: "fs \<Rightarrow> bool" where
  "wf_fs fs = (distinct (map fst fs) \<and> (\<forall>p \<in> fst ` set fs. p \<noteq> [] \<and> is_dir fs (butlast p)))"

section \<open>The route dispatcher (api\_server.py)\<close>













section \<open>The data file fetcher (data\_downloader.py)\<close>

text \<open>
  The collaborators of \<^verbatim>\<open>DataDownloader\<close>: the data directory of the configuration, the
  remote client and the user at the terminal. A call of
  \<^verbatim>\<open>api_client.data.download_file\<close> returns the bytes or raises; the answer may depend on
  how many requests were made before. \<^verbatim>\<open>click.confirm\<close> returns the user's answer, which
  may depend on how many prompts were shown before.
\<close>

datatype fetch =
    Content string
  | Failed py_error

record dl_env =
  data_directory :: path
  remote :: "nat \<Rightarrow> string \<Rightarrow> string \<Rightarrow> fetch"
  confirm :: "nat \<Rightarrow> bool"

text \<open>
  The state that a run reads and writes: the local files, the field
  \<^verbatim>\<open>self._force_overwrite\<close> (\<open>None\<close> until the user has answered), the lines given to the
  logger, the number of prompts shown and the files asked of the remote client.
\<close>

datatype level = Info | Warn

record downloader =
  dl_fs :: fs
  force_overwrite :: "bool option"
  log :: "(level \<times> string) list"
  prompts :: nat
  requests :: "string list"

definition should_overwrite ::
  "dl_env \<Rightarrow> bool \<Rightarrow> path \<Rightarrow> downloader \<Rightarrow> bool \<times> downloader" where
  "should_overwrite env overwrite_flag path s =
     (if overwrite_flag \<or> force_overwrite s = Some True then (True, s)
      else
        let s = s\<lparr>log := log s @
                  [(Warn, path_str path @ '' already exists, use --overwrite to overwrite it'')]\<rparr>;
            s = (if force_overwrite s = None
                 then s\<lparr>force_overwrite := Some (confirm env (prompts s)),
                        prompts := Suc (prompts s)\<rparr>
                 else s)
        in (force_overwrite s = Some True, s))"

text \<open>
  The guard of \<^verbatim>\<open>_download_file\<close>,
  \<^verbatim>\<open>local_path.exists() and not self._should_overwrite(...)\<close>, read as "may the file be
  fetched": \<^verbatim>\<open>_should_overwrite\<close> is only called for a path that exists.
\<close>

definition overwrite_gate ::
  "dl_env \<Rightarrow> bool \<Rightarrow> path \<Rightarrow> downloader \<Rightarrow> bool \<times> downloader" where
  "overwrite_gate env overwrite_flag local_path s =
     (if path_exists (dl_fs s) local_path then should_overwrite env overwrite_flag local_path s
      else (True, s))"

definition not_billed_warning :: "string \<Rightarrow> level \<times> string" where
  "not_billed_warning relative_file =
     (Warn, relative_file @ '' does not exist in the QuantConnect Data Library'' @
            [CHR 0x0A] @ ''You have not been billed for this file'')"

text \<open>
  \<^verbatim>\<open>_download_file\<close>. The result is the exception that leaves the method, if any, and the
  state it leaves behind.
\<close>

definition download_file ::
  "dl_env \<Rightarrow> string \<Rightarrow> bool \<Rightarrow> path \<Rightarrow> string \<Rightarrow> downloader
     \<Rightarrow> py_error option \<times> downloader" where
  "download_file env relative_file overwrite_flag data_dir organization_id s =
     (let local_path = path_join data_dir relative_file in
      case overwrite_gate env overwrite_flag local_path s of
        (False, s) \<Rightarrow> (None, s)
      | (True, s) \<Rightarrow>
          (let answer = remote env (length (requests s)) relative_file organization_id;
               s = s\<lparr>requests := requests s @ [relative_file]\<rparr>
           in case answer of
                Failed (RequestFailedError m) \<Rightarrow>
                  (if sublist ''File not found'' m
                   then (None, s\<lparr>log := log s @ [not_billed_warning relative_file]\<rparr>)
                   else (Some (RequestFailedError m), s))
              | Failed error \<Rightarrow> (Some error, s)
              | Content file_content \<Rightarrow>
                  (case mkdir_parents (dl_fs s) (butlast local_path) of
                     Inl error \<Rightarrow> (Some error, s)
                   | Inr fs \<Rightarrow>
                       (case write_node fs local_path (RegularFile file_content) of
                          Inl error \<Rightarrow> (Some error, s\<lparr>dl_fs := fs\<rparr>)
                        | Inr fs \<Rightarrow> (None, s\<lparr>dl_fs := fs\<rparr>)))))"

text \<open>
  \<^verbatim>\<open>download_files\<close>: the loop over \<^verbatim>\<open>enumerate(files)\<close>, with the index and the length
  of the whole list for the progress line. An exception of a file ends the loop.
\<close>

definition progress_line :: "nat \<Rightarrow> nat \<Rightarrow> string \<Rightarrow> level \<times> string" where
  "progress_line index n_files file =
     (Info, ''['' @ str_nat (index + 1) @ ''/'' @ str_nat n_files @ ''] Downloading '' @ file)"

fun download_loop ::
  "dl_env \<Rightarrow> nat \<Rightarrow> nat \<Rightarrow> string list \<Rightarrow> bool \<Rightarrow> path \<Rightarrow> string \<Rightarrow> downloader
     \<Rightarrow> py_error option \<times> downloader" where
  "download_loop env index n_files [] overwrite_flag data_dir organization_id s = (None, s)"
| "download_loop env index n_files (file # files) overwrite_flag data_dir organization_id s =
     (case download_file env file overwrite_flag data_dir organization_id
             (s\<lparr>log := log s @ [progress_line index n_files file]\<rparr>) of
        (Some error, s) \<Rightarrow> (Some error, s)
      | (None, s) \<Rightarrow>
          download_loop env (index + 1) n_files files overwrite_flag data_dir organization_id s)"

definition download_files ::
  "dl_env \<Rightarrow> string list \<Rightarrow> bool \<Rightarrow> string \<Rightarrow> downloader \<Rightarrow> py_error option \<times> downloader" where
  "download_files env files overwrite_flag organization_id s =
     download_loop env 0 (length files) files overwrite_flag (data_directory env)
       organization_id s"

text \<open>
  A fetch failure "whose message indicates file not found": a \<^verbatim>\<open>RequestFailedError\<close> whose
  \<^verbatim>\<open>str\<close> contains \<^verbatim>\<open>File not found\<close>.
\<close>

definition file_not_found :: "py_error \<Rightarrow> bool" where
  "file_not_found e = (case e of RequestFailedError m \<Rightarrow> sublist ''File not found'' m | _ \<Rightarrow> False)"


text \<open>
  A concrete run, for the scenario of the specification: the data directory holds
  \<^verbatim>\<open>a.zip\<close>; the remote client knows \<^verbatim>\<open>b.zip\<close>, reports "File not found" for \<^verbatim>\<open>c.zip\<close> and
  fails otherwise; the user answers no.
\<close>

definition example_env :: dl_env where
  "example_env =
     \<lparr>data_directory = [''data''],
      remote = (\<lambda>n f org. if f = ''b.zip'' then Content ''BBB''
                           else if f = ''c.zip'' then Failed (RequestFailedError ''File not found'')
                           else Failed (OtherError ''connection reset'')),
      confirm = (\<lambda>n. False)\<rparr>"

definition example_state :: downloader where
  "example_state =
     \<lparr>dl_fs = [([''data''], Directory), ([''data'', ''a.zip''], RegularFile ''old'')],
      force_overwrite = None, log = [], prompts = 0, requests = []\<rparr>"

section \<open>The project handler (project\_server.py)\<close>

subsection \<open>The request input\<close>

text \<open>
  \<^verbatim>\<open>g.input\<close> is the dict of the request's fields, with string values as a form sends
  them. \<^verbatim>\<open>k in g.input\<close> is membership among the keys, \<^verbatim>\<open>g.input[k]\<close> raises KeyError where
  the key is missing.
\<close>

type_synonym input = "(string \<times> string) list"

definition has_key :: "('k \<times> 'v) list \<Rightarrow> 'k \<Rightarrow> bool" where
  "has_key d k = (k \<in> fst ` set d)"

definition getitem :: "input \<Rightarrow> string \<Rightarrow> py_error + string" where
  "getitem d k = (case map_of d k of None \<Rightarrow> Inl (KeyError k) | Some v \<Rightarrow> Inr v)"

text \<open>
  \<^verbatim>\<open>int(s)\<close> of a string: surrounding whitespace is dropped, a sign may lead, the decimal
  digits may be grouped by single underscores; anything else raises ValueError. Only
  the ASCII digits and the ASCII whitespace are modelled.
\<close>

definition is_space :: "char \<Rightarrow> bool" where
  "is_space c = (c \<in> set [CHR '' '', CHR 0x09, CHR 0x0A, CHR 0x0B, CHR 0x0C, CHR 0x0D])"

definition is_digit :: "char \<Rightarrow> bool" where
  "is_digit c = (c \<in> set ''0123456789'')"

definition py_strip :: "string \<Rightarrow> string" where
  "py_strip s = rev (dropWhile is_space (rev (dropWhile is_space s)))"

fun digits_ok :: "string \<Rightarrow> bool" where
  "digits_ok [] = False"
| "digits_ok [c] = is_digit c"
| "digits_ok (c # d # cs) =
     (is_digit c \<and> (if d = CHR ''_'' then digits_ok cs else digits_ok (d # cs)))"

definition digits_value :: "string \<Rightarrow> int" where
  "digits_value ds =
     foldl (\<lambda>a c. 10 * a + (of_char c - 48)) 0 (filter (\<lambda>c. c \<noteq> CHR ''_'') ds)"

definition py_int :: "string \<Rightarrow> py_error + int" where
  "py_int s =
     (let t = py_strip s;
          negative = (t \<noteq> [] \<and> hd t = CHR ''-'');
          ds = (if t \<noteq> [] \<and> (hd t = CHR ''-'' \<or> hd t = CHR ''+'') then tl t else t)
      in if digits_ok ds then Inr (if negative then - digits_value ds else digits_value ds)
         else Inl (ValueError (''invalid literal for int() with base 10: '' @ s)))"

subsection \<open>The collaborators that are not part of the handler\<close>

text \<open>
  What the handler takes from outside, as parameters: the working root
  (\<^verbatim>\<open>get_cli_root_directory()\<close>), the constant \<^verbatim>\<open>PROJECT_CONFIG_FILE_NAME\<close>, the files that
  the sync component would upload for a project (\<^verbatim>\<open>get_files_to_sync\<close>), the
  \<^verbatim>\<open>stat\<close> record that the operating system gives for a path (\<open>None\<close> where the call
  fails), the members of the enum \<^verbatim>\<open>QCLanguage\<close> in declaration order, the id that is
  given to a project that has none, the conversion
  \<^verbatim>\<open>datetime.fromtimestamp(ns / 1e9).astimezone(tz=timezone.utc)\<close> of a nanosecond count
  (its floating point division is not modelled), \<^verbatim>\<open>datetime.now()\<close>, the constant
  \<^verbatim>\<open>FAKE_ORGANIZATION\<close> (its id, and the id and name of its first member) and the
  command \<^verbatim>\<open>create_project\<close> that scaffolds a new project. The listing of files and
  the stat records may depend on the state of the file system.
\<close>

record stat_result =
  st_mtime_ns :: int
  st_ctime_ns :: int

record ('l, 't) ps_env =
  cli_root :: path
  config_file_name :: string
  files_to_sync :: "fs \<Rightarrow> path \<Rightarrow> path list"
  stat :: "fs \<Rightarrow> path \<Rightarrow> stat_result option"
  members :: "(string \<times> 'l) list"
  fresh_id :: "fs \<Rightarrow> path \<Rightarrow> int"
  utc_of_ns :: "int \<Rightarrow> 't"
  now :: 't
  fake_organization_id :: string
  fake_member_id :: int
  fake_member_name :: string
  create_project_callback :: "string \<Rightarrow> string \<Rightarrow> fs \<Rightarrow> py_error + fs"

subsection \<open>The sidecar configuration and the identity of a project\<close>

text \<open>
  \<^verbatim>\<open>cli_root.rglob(name)\<close>: every path below the root whose last component is the name.
\<close>

definition rglob :: "fs \<Rightarrow> path \<Rightarrow> string \<Rightarrow> path list" where
  "rglob fs root name =
     filter (\<lambda>p. prefix root p \<and> p \<noteq> root \<and> last p = name) (map fst fs)"

text \<open>
  Modelled from the spec: the sidecar accessor (\<^verbatim>\<open>ProjectConfigManager\<close> and its
  \<^verbatim>\<open>Storage\<close>), which is not among the sources. The spec: one persisted key/value store
  per project directory, with \<open>get\<close> (with a default) and \<open>set\<close> of string-or-nested-map
  values. The store of a directory is the JSON object of the sidecar file in it, empty
  where there is no such file; \<open>set\<close> assigns the key and writes the file.
\<close>

type_synonym config = "(string \<times> json) list"

definition config_path :: "('l, 't) ps_env \<Rightarrow> path \<Rightarrow> path" where
  "config_path env project_dir = project_dir @ [config_file_name env]"

definition get_project_config :: "('l, 't) ps_env \<Rightarrow> fs \<Rightarrow> path \<Rightarrow> config" where
  "get_project_config env fs project_dir =
     (case node_at fs (config_path env project_dir) of
        Some (ConfigFile d) \<Rightarrow> d
      | _ \<Rightarrow> [])"

definition config_get :: "config \<Rightarrow> string \<Rightarrow> json \<Rightarrow> json" where
  "config_get d key dflt = (case map_of d key of Some v \<Rightarrow> v | None \<Rightarrow> dflt)"

definition config_set ::
  "('l, 't) ps_env \<Rightarrow> path \<Rightarrow> config \<Rightarrow> string \<Rightarrow> json \<Rightarrow> fs \<Rightarrow> py_error + config \<times> fs" where
  "config_set env project_dir d key v fs =
     (case mkdir_parents fs project_dir of
        Inl e \<Rightarrow> Inl e
      | Inr fs \<Rightarrow>
          (case write_node fs (config_path env project_dir)
                  (ConfigFile (AList.update key v d)) of
             Inl e \<Rightarrow> Inl e
           | Inr fs \<Rightarrow> Inr (AList.update key v d, fs)))"

text \<open>
  Modelled from the spec: \<^verbatim>\<open>ProjectConfigManager.get_local_id\<close>, which is not among the
  sources. The spec: the accessor resolves or assigns a local integer id per directory,
  stored in the sidecar. The id is the stored one; a project that has none is given one
  (\<open>fresh_id\<close>), which is stored.
\<close>

definition local_id_key :: string where
  "local_id_key = ''local-id''"

definition get_local_id :: "('l, 't) ps_env \<Rightarrow> path \<Rightarrow> fs \<Rightarrow> (py_error + int) \<times> fs" where
  "get_local_id env project_dir fs =
     (let d = get_project_config env fs project_dir in
      case map_of d local_id_key of
        Some (JInt i) \<Rightarrow> (Inr i, fs)
      | Some _ \<Rightarrow> (Inl (ValueError ''the local id is not an integer''), fs)
      | None \<Rightarrow>
          (case config_set env project_dir d local_id_key (JInt (fresh_id env fs project_dir)) fs of
             Inl e \<Rightarrow> (Inl e, fs)
           | Inr (d, fs') \<Rightarrow> (Inr (fresh_id env fs project_dir), fs')))"

text \<open>
  Modelled from the spec: \<^verbatim>\<open>ProjectManager.find_project_by_id\<close>, which is not among the
  sources. The spec: it resolves exactly one project by id and fails with NotFound if
  the id does not correspond to a tracked directory. The tracked directories are those
  below the working root that hold a sidecar file; the project is the first of them
  whose stored id is the given one.
\<close>

definition project_dirs :: "('l, 't) ps_env \<Rightarrow> fs \<Rightarrow> path list" where
  "project_dirs env fs = map butlast (rglob fs (cli_root env) (config_file_name env))"

definition not_found :: "int \<Rightarrow> py_error" where
  "not_found project_id =
     RuntimeError (''Project with local id '' @
        (if project_id < 0 then ''-'' else []) @ str_nat (nat \<bar>project_id\<bar>) @ '' does not exist'')"

definition find_project_by_id :: "('l, 't) ps_env \<Rightarrow> fs \<Rightarrow> int \<Rightarrow> py_error + path" where
  "find_project_by_id env fs local_id =
     (case filter (\<lambda>d. map_of (get_project_config env fs d) local_id_key = Some (JInt local_id))
             (project_dirs env fs) of
        [] \<Rightarrow> Inl (not_found local_id)
      | d # _ \<Rightarrow> Inr d)"

text \<open>
  \<^verbatim>\<open>shutil.move(src, dst)\<close> of the standard library, for a source that is a directory
  (a project is one; the move of a regular file is not modelled). A destination that is
  an existing directory takes the source inside itself. Otherwise the source is renamed
  to the destination: that fails where the destination exists (as something that is no
  directory) and where the destination lies inside the source; the missing parents of
  the destination are made; every path at or below the source becomes the path at the
  same place below the destination.
\<close>

definition rename_tree :: "fs \<Rightarrow> path \<Rightarrow> path \<Rightarrow> py_error + fs" where
  "rename_tree fs src dst =
     (if path_exists fs dst then Inl (OSError (''File exists: '' @ path_str dst))
      else if prefix src dst
        then Inl (ShutilError (''Cannot move a directory '' @ path_str src @
                    '' into itself '' @ path_str dst))
      else (case mkdir_parents fs (butlast dst) of
              Inl e \<Rightarrow> Inl e
            | Inr fs \<Rightarrow>
                Inr (map (\<lambda>(p, n). (if prefix src p then dst @ drop (length src) p else p, n))
                       fs)))"

definition shutil_move :: "fs \<Rightarrow> path \<Rightarrow> path \<Rightarrow> py_error + fs" where
  "shutil_move fs src dst =
     (if \<not> is_dir fs src \<or> src = []
        then Inl (OSError (''Not a directory that can be moved: '' @ path_str src))
      else if is_dir fs dst then
        (if dst = src then Inr fs
         else if path_exists fs (dst @ [last src])
           then Inl (ShutilError (''Destination path '' @ path_str (dst @ [last src]) @
                       '' already exists''))
         else rename_tree fs src (dst @ [last src]))
      else rename_tree fs src dst)"

subsection \<open>The update of the parameters\<close>

text \<open>
  The loop \<^verbatim>\<open>while f"parameters[{index}][key]" in g.input\<close>. It ends because the keys
  of different indices differ and the input has finitely many keys.
\<close>

lemma digit_inj: "a < 10 \<Longrightarrow> b < 10 \<Longrightarrow> digit a = digit b \<Longrightarrow> a = b"
proof -
  assume a: "a < 10" and b: "b < 10" and e: "digit a = digit b"
  have d: "distinct ''0123456789''" by simp
  have "length ''0123456789'' = 10" by simp
  with a b e d show "a = b"
    unfolding digit_def by (metis nth_eq_iff_index_eq)
qed

lemma str_nat_nonempty: "str_nat n \<noteq> []"
  by (subst str_nat.simps) simp

lemma str_nat_inj: "str_nat m = str_nat n \<Longrightarrow> m = n"
proof (induction m arbitrary: n rule: str_nat.induct)
  case (1 m)
  show ?case
  proof (cases "m < 10")
    case True
    then have m: "str_nat m = [digit m]" by (subst str_nat.simps) simp
    show ?thesis
    proof (cases "n < 10")
      case True
      then have "str_nat n = [digit n]" by (subst str_nat.simps) simp
      with m "1.prems" \<open>m < 10\<close> True show ?thesis by (auto dest: digit_inj)
    next
      case False
      then have "str_nat n = str_nat (n div 10) @ [digit (n mod 10)]"
        by (subst str_nat.simps) simp
      with m "1.prems" str_nat_nonempty [of "n div 10"] show ?thesis by simp
    qed
  next
    case False
    then have m: "str_nat m = str_nat (m div 10) @ [digit (m mod 10)]"
      by (subst str_nat.simps) simp
    show ?thesis
    proof (cases "n < 10")
      case True
      then have "str_nat n = [digit n]" by (subst str_nat.simps) simp
      with m "1.prems" str_nat_nonempty [of "m div 10"] show ?thesis by simp
    next
      case nf: False
      then have "str_nat n = str_nat (n div 10) @ [digit (n mod 10)]"
        by (subst str_nat.simps) simp
      with m "1.prems" have q: "str_nat (m div 10) = str_nat (n div 10)"
        and r: "digit (m mod 10) = digit (n mod 10)" by simp_all
      from "1.IH" [OF False q] have "m div 10 = n div 10" .
      moreover from r have "m mod 10 = n mod 10" by (intro digit_inj) simp_all
      ultimately show ?thesis by (metis div_mult_mod_eq)
    qed
  qed
qed

definition param_key :: "nat \<Rightarrow> string" where
  "param_key index = ''parameters['' @ str_nat index @ ''][key]''"

definition param_value :: "nat \<Rightarrow> string" where
  "param_value index = ''parameters['' @ str_nat index @ ''][value]''"

lemma param_key_inj: "param_key i = param_key j \<Longrightarrow> i = j"
  by (simp add: param_key_def str_nat_inj)

text \<open>The keys of the input that the loop can still meet from an index on: its measure.\<close>

definition keys_from :: "input \<Rightarrow> nat \<Rightarrow> string set" where
  "keys_from inp index = {k \<in> fst ` set inp. \<exists>j\<ge>index. k = param_key j}"

lemma keys_from_less:
  assumes "has_key inp (param_key index)"
  shows "card (keys_from inp (Suc index)) < card (keys_from inp index)"
proof (rule psubset_card_mono)
  show "finite (keys_from inp index)" by (simp add: keys_from_def)
  have "param_key index \<in> keys_from inp index"
    using assms by (auto simp: keys_from_def has_key_def)
  moreover have "param_key index \<notin> keys_from inp (Suc index)"
    by (auto simp: keys_from_def dest: param_key_inj)
  moreover have "keys_from inp (Suc index) \<subseteq> keys_from inp index"
    unfolding keys_from_def using Suc_leD by blast
  ultimately show "keys_from inp (Suc index) \<subset> keys_from inp index" by blast
qed

function parameters_loop :: "input \<Rightarrow> nat \<Rightarrow> config \<Rightarrow> py_error + config" where
  "parameters_loop inp index parameters =
     (if has_key inp (param_key index) then
        (case getitem inp (param_value index) of
           Inl e \<Rightarrow> Inl e
         | Inr v \<Rightarrow>
             (case getitem inp (param_key index) of
                Inl e \<Rightarrow> Inl e
              | Inr k \<Rightarrow> parameters_loop inp (index + 1) (AList.update k (JStr v) parameters)))
      else Inr parameters)"
  by pat_completeness auto
termination
  by (relation "measure (\<lambda>(inp, index, parameters). card (keys_from inp index))")
     (simp_all add: keys_from_less)

declare parameters_loop.simps [simp del]


subsection \<open>The metadata record of a project\<close>

record qc_parameter =
  qc_key :: string
  qc_value :: json

record qc_collaborator =
  c_id :: int
  c_uid :: int
  c_blivecontrol :: bool
  c_epermission :: string
  c_profileimage :: string
  c_name :: string
  c_owner :: bool

record ('l, 't) qc_project =
  projectId :: int
  organizationId :: string
  name :: string
  description :: json
  modified :: 't
  created :: 't
  language :: 'l
  collaborators :: "qc_collaborator list"
  leanVersionId :: int
  leanPinnedToMaster :: bool
  parameters :: "qc_parameter list"
  liveResults :: string
  libraries :: "int list"

text \<open>\<^verbatim>\<open>project_dir.relative_to(root)\<close> and \<^verbatim>\<open>as_posix()\<close> of the relative path.\<close>

definition relative_to :: "path \<Rightarrow> path \<Rightarrow> py_error + path" where
  "relative_to p root =
     (if prefix root p then Inr (drop (length root) p)
      else Inl (ValueError (path_str p @ '' is not in the subpath of '' @ path_str root)))"

fun as_posix :: "path \<Rightarrow> string" where
  "as_posix [] = ''.''"
| "as_posix [c] = c"
| "as_posix (c # cs) = c @ ''/'' @ as_posix cs"

text \<open>\<^verbatim>\<open>[f.stat() for f in files]\<close>: the first call that fails ends the comprehension.\<close>

fun stats_of :: "(path \<Rightarrow> stat_result option) \<Rightarrow> path list \<Rightarrow> py_error + stat_result list" where
  "stats_of st [] = Inr []"
| "stats_of st (f # fs) =
     (case st f of
        None \<Rightarrow> Inl (OSError (''No such file or directory: '' @ path_str f))
      | Some s \<Rightarrow> (case stats_of st fs of Inl e \<Rightarrow> Inl e | Inr ss \<Rightarrow> Inr (s # ss)))"

text \<open>\<^verbatim>\<open>max\<close> and \<^verbatim>\<open>min\<close> of the values of a generator, which raise on an empty one.\<close>

fun py_max :: "int list \<Rightarrow> py_error + int" where
  "py_max [] = Inl (ValueError ''max() arg is an empty sequence'')"
| "py_max (x # xs) = Inr (foldl max x xs)"

fun py_min :: "int list \<Rightarrow> py_error + int" where
  "py_min [] = Inl (ValueError ''min() arg is an empty sequence'')"
| "py_min (x # xs) = Inr (foldl min x xs)"

text \<open>\<^verbatim>\<open>.items()\<close> of the stored parameters, which only a dict has.\<close>

fun items :: "json \<Rightarrow> py_error + (string \<times> json) list" where
  "items (JObj d) = Inr d"
| "items _ = Inl (AttributeError ''object has no attribute items'')"

text \<open>
  \<^verbatim>\<open>next(v for k, v in QCLanguage.__members__.items() if k == project_language)\<close>: the
  value of the first member whose name is the stored language; \<^verbatim>\<open>next\<close> raises
  StopIteration when the generator is empty.
\<close>

fun next_member :: "(string \<times> 'l) list \<Rightarrow> json \<Rightarrow> py_error + 'l" where
  "next_member [] project_language = Inl StopIteration"
| "next_member ((k, v) # ms) project_language =
     (if JStr k = project_language then Inr v else next_member ms project_language)"

text \<open>
  \<^verbatim>\<open>_create_project\<close>. The steps are in the order of the source; the keyword arguments
  of \<^verbatim>\<open>QCProject(...)\<close> are evaluated in their order, so the language lookup comes last.
  The validation of the field types by the record class is not modelled.
\<close>

definition create_project ::
  "('l, 't) ps_env \<Rightarrow> path \<Rightarrow> fs \<Rightarrow> (py_error + ('l, 't) qc_project) \<times> fs" where
  "create_project env project_dir fs0 =
     (case get_local_id env project_dir fs0 of
        (Inl e, fs) \<Rightarrow> (Inl e, fs)
      | (Inr project_id, fs) \<Rightarrow>
     (let project_config = get_project_config env fs project_dir in
      case relative_to project_dir (cli_root env) of
        Inl e \<Rightarrow> (Inl e, fs)
      | Inr relative_dir \<Rightarrow>
     (let project_language = config_get project_config ''language'' (JStr ''Python'') in
      case stats_of (stat env fs) (files_to_sync env fs project_dir) of
        Inl e \<Rightarrow> (Inl e, fs)
      | Inr stats \<Rightarrow>
     (case (if length stats = 0 then stats_of (stat env fs) [project_dir] else Inr stats) of
        Inl e \<Rightarrow> (Inl e, fs)
      | Inr stats \<Rightarrow>
     (case py_max (map st_mtime_ns stats) of
        Inl e \<Rightarrow> (Inl e, fs)
      | Inr max_mtime \<Rightarrow>
     (case py_min (map st_ctime_ns stats) of
        Inl e \<Rightarrow> (Inl e, fs)
      | Inr min_ctime \<Rightarrow>
     (case items (config_get project_config ''parameters'' (JObj [])) of
        Inl e \<Rightarrow> (Inl e, fs)
      | Inr kvs \<Rightarrow>
     (case next_member (members env) project_language of
        Inl e \<Rightarrow> (Inl e, fs)
      | Inr lang \<Rightarrow>
          (Inr \<lparr>projectId = project_id,
                organizationId = fake_organization_id env,
                name = as_posix relative_dir,
                description = config_get project_config ''description'' (JStr ''''),
                modified = utc_of_ns env max_mtime,
                created = utc_of_ns env min_ctime,
                language = lang,
                collaborators =
                  [\<lparr>c_id = 0, c_uid = fake_member_id env, c_blivecontrol = True,
                    c_epermission = ''write'',
                    c_profileimage = ''https://cdn.quantconnect.com/i/tu/qc-logo.svg'',
                    c_name = fake_member_name env, c_owner = True\<rparr>],
                leanVersionId = - 1,
                leanPinnedToMaster = True,
                parameters = map (\<lambda>(k, v). \<lparr>qc_key = k, qc_value = v\<rparr>) kvs,
                liveResults = ''Undefined'',
                libraries = []\<rparr>, fs)))))))))"

subsection \<open>The handlers\<close>

text \<open>
  A handler returns its value or raises, and leaves a file system behind either way.
  \<^verbatim>\<open>_projects_read\<close> returns the list that it wraps as \<^verbatim>\<open>{"projects": [...]}\<close>.
\<close>

fun create_projects ::
  "('l, 't) ps_env \<Rightarrow> path list \<Rightarrow> fs \<Rightarrow> (py_error + ('l, 't) qc_project list) \<times> fs" where
  "create_projects env [] fs = (Inr [], fs)"
| "create_projects env (d # ds) fs =
     (case create_project env d fs of
        (Inl e, fs) \<Rightarrow> (Inl e, fs)
      | (Inr p, fs) \<Rightarrow>
          (case create_projects env ds fs of
             (Inl e, fs) \<Rightarrow> (Inl e, fs)
           | (Inr ps, fs) \<Rightarrow> (Inr (p # ps), fs)))"

definition projects_read ::
  "('l, 't) ps_env \<Rightarrow> input \<Rightarrow> fs \<Rightarrow> (py_error + ('l, 't) qc_project list) \<times> fs" where
  "projects_read env inp fs =
     (case map_of inp ''projectId'' of
        Some project_id \<Rightarrow>
          (case py_int project_id of
             Inl e \<Rightarrow> (Inl e, fs)
           | Inr i \<Rightarrow>
               (case find_project_by_id env fs i of
                  Inl e \<Rightarrow> (Inl e, fs)
                | Inr d \<Rightarrow> create_projects env [d] fs))
      | None \<Rightarrow>
          create_projects env (map butlast (rglob fs (cli_root env) (config_file_name env))) fs)"

definition conflict :: "string \<Rightarrow> py_error" where
  "conflict n = RuntimeError (''There already exists a project named '' @
                   [apostrophe] @ n @ [apostrophe])"

text \<open>
  \<^verbatim>\<open>_projects_update\<close>. \<open>project_config\<close> is the one accessor object of the call: each
  \<open>set\<close> assigns to its dict and writes the sidecar of \<open>project_dir\<close>.
\<close>

definition projects_update ::
  "('l, 't) ps_env \<Rightarrow> input \<Rightarrow> fs \<Rightarrow> (py_error + unit) \<times> fs" where
  "projects_update env inp fs0 =
     (case getitem inp ''projectId'' of
        Inl e \<Rightarrow> (Inl e, fs0)
      | Inr pid \<Rightarrow>
     (case py_int pid of
        Inl e \<Rightarrow> (Inl e, fs0)
      | Inr project_id \<Rightarrow>
     (case find_project_by_id env fs0 project_id of
        Inl e \<Rightarrow> (Inl e, fs0)
      | Inr project_dir \<Rightarrow>
     (let project_config = get_project_config env fs0 project_dir in
      case (if has_key inp ''description''
            then (case getitem inp ''description'' of
                    Inl e \<Rightarrow> Inl e
                  | Inr v \<Rightarrow> config_set env project_dir project_config ''description'' (JStr v) fs0)
            else Inr (project_config, fs0)) of
        Inl e \<Rightarrow> (Inl e, fs0)
      | Inr (project_config, fs1) \<Rightarrow>
     (case (if has_key inp ''parameters''
            then config_set env project_dir project_config ''parameters'' (JObj []) fs1
            else if has_key inp ''parameters[0][key]''
            then (case parameters_loop inp 0 [] of
                    Inl e \<Rightarrow> Inl e
                  | Inr ps \<Rightarrow> config_set env project_dir project_config ''parameters'' (JObj ps) fs1)
            else Inr (project_config, fs1)) of
        Inl e \<Rightarrow> (Inl e, fs1)
      | Inr (project_config, fs2) \<Rightarrow>
     (if has_key inp ''name''
      then (case getitem inp ''name'' of
              Inl e \<Rightarrow> (Inl e, fs2)
            | Inr n \<Rightarrow>
                (let new_dir = path_join (cli_root env) (lstrip_slash n) in
                 if is_dir fs2 new_dir then (Inl (conflict n), fs2)
                 else (case shutil_move fs2 project_dir new_dir of
                         Inl e \<Rightarrow> (Inl e, fs2)
                       | Inr fs3 \<Rightarrow> (Inr (), fs3))))
      else (Inr (), fs2)))))))"

text \<open>
  \<^verbatim>\<open>_projects_create\<close>. The state also lists the calls of the scaffolding command, each
  with its two arguments. The record is \<^verbatim>\<open>QCCreatedProject\<close>.
\<close>

record server =
  server_fs :: fs
  scaffold_calls :: "(string \<times> string) list"

record 't qc_created_project =
  created_projectId :: int
  created_name :: string
  created_modified :: 't
  created_created :: 't

definition projects_create ::
  "('l, 't) ps_env \<Rightarrow> input \<Rightarrow> server \<Rightarrow> (py_error + 't qc_created_project list) \<times> server" where
  "projects_create env inp s =
     (case getitem inp ''name'' of
        Inl e \<Rightarrow> (Inl e, s)
      | Inr n \<Rightarrow>
     (case getitem inp ''language'' of
        Inl e \<Rightarrow> (Inl e, s)
      | Inr l \<Rightarrow>
     (let project_name = lstrip_slash n;
          lang = (if l = ''Py'' then ''python'' else ''csharp'');
          s = s\<lparr>scaffold_calls := scaffold_calls s @ [(project_name, lang)]\<rparr>
      in case create_project_callback env project_name lang (server_fs s) of
           Inl e \<Rightarrow> (Inl e, s)
         | Inr fs \<Rightarrow>
             (let project_dir = path_join (cli_root env) project_name in
              case get_local_id env project_dir fs of
                (Inl e, fs) \<Rightarrow> (Inl e, s\<lparr>server_fs := fs\<rparr>)
              | (Inr project_id, fs) \<Rightarrow>
                  (Inr [\<lparr>created_projectId = project_id, created_name = project_name,
                         created_modified = now env, created_created = now env\<rparr>],
                   s\<lparr>server_fs := fs\<rparr>)))))"

subsection \<open>The update in the words of the specification\<close>

text \<open>
  The specification describes \<^verbatim>\<open>update\<close> as three partial updates, each applied only if
  its field is present, in the order description, parameters, rename. The three steps
  on their own, and their sequence; a step that fails ends the sequence and leaves the
  file system as the steps before it made it. The first two steps work on the accessor
  of the project (its dict and the file system), the rename on the file system.
\<close>

definition set_description_step ::
  "('l, 't) ps_env \<Rightarrow> input \<Rightarrow> path \<Rightarrow> config \<times> fs \<Rightarrow> py_error + config \<times> fs" where
  "set_description_step env inp project_dir cf =
     (case map_of inp ''description'' of
        None \<Rightarrow> Inr cf
      | Some v \<Rightarrow> config_set env project_dir (fst cf) ''description'' (JStr v) (snd cf))"

definition set_parameters_step ::
  "('l, 't) ps_env \<Rightarrow> input \<Rightarrow> path \<Rightarrow> config \<times> fs \<Rightarrow> py_error + config \<times> fs" where
  "set_parameters_step env inp project_dir cf =
     (if has_key inp ''parameters''
        then config_set env project_dir (fst cf) ''parameters'' (JObj []) (snd cf)
      else if has_key inp (param_key 0)
        then (case parameters_loop inp 0 [] of
                Inl e \<Rightarrow> Inl e
              | Inr ps \<Rightarrow> config_set env project_dir (fst cf) ''parameters'' (JObj ps) (snd cf))
      else Inr cf)"

definition rename_step ::
  "('l, 't) ps_env \<Rightarrow> input \<Rightarrow> path \<Rightarrow> fs \<Rightarrow> py_error + fs" where
  "rename_step env inp project_dir fs =
     (case map_of inp ''name'' of
        None \<Rightarrow> Inr fs
      | Some n \<Rightarrow>
          (if is_dir fs (path_join (cli_root env) (lstrip_slash n)) then Inl (conflict n)
           else shutil_move fs project_dir (path_join (cli_root env) (lstrip_slash n))))"

definition update_in_order ::
  "('l, 't) ps_env \<Rightarrow> input \<Rightarrow> path \<Rightarrow> fs \<Rightarrow> (py_error + unit) \<times> fs" where
  "update_in_order env inp project_dir fs =
     (case set_description_step env inp project_dir
             (get_project_config env fs project_dir, fs) of
        Inl e \<Rightarrow> (Inl e, fs)
      | Inr (c1, fs1) \<Rightarrow>
          (case set_parameters_step env inp project_dir (c1, fs1) of
             Inl e \<Rightarrow> (Inl e, fs1)
           | Inr (c2, fs2) \<Rightarrow>
               (case rename_step env inp project_dir fs2 of
                  Inl e \<Rightarrow> (Inl e, fs2)
                | Inr fs3 \<Rightarrow> (Inr (), fs3))))"


text \<open>
  The path \<open>k\<close> is the sidecar file of a tracked project whose stored id is \<open>i\<close>.
\<close>

definition sidecar_of_id :: "('l, 't) ps_env \<Rightarrow> fs \<Rightarrow> int \<Rightarrow> path \<Rightarrow> bool" where
  "sidecar_of_id env fs i k =
     (prefix (cli_root env) k \<and> k \<noteq> cli_root env \<and> last k = config_file_name env \<and>
      (\<exists>c. node_at fs k = Some (ConfigFile c) \<and> map_of c local_id_key = Some (JInt i)))"

subsection \<open>An indexed list of pairs in a request\<close>

text \<open>
  The request carries the pairs \<open>kvs\<close> as an indexed list: the keys and values of the
  indices from 0 on are those of the list, and the index after the last is absent. The
  dict of the pairs is built by assigning them in order, so that a later pair replaces
  an earlier one of the same key.
\<close>

definition indexed_pairs :: "input \<Rightarrow> (string \<times> string) list \<Rightarrow> bool" where
  "indexed_pairs inp kvs =
     ((\<forall>i < length kvs. map_of inp (param_key i) = Some (fst (kvs ! i)) \<and>
                          map_of inp (param_value i) = Some (snd (kvs ! i))) \<and>
      \<not> has_key inp (param_key (length kvs)))"

definition dict_of_pairs :: "(string \<times> string) list \<Rightarrow> config \<Rightarrow> config" where
  "dict_of_pairs kvs d = foldl (\<lambda>d (k, v). AList.update k (JStr v) d) d kvs"

subsection \<open>A concrete working root\<close>

text \<open>
  Modelled from the spec: the enum \<^verbatim>\<open>QCLanguage\<close>, which is not among the sources; the
  spec names the closed set of variants Python and CSharp. It is used for the concrete
  environment below only; the handler takes the members as a parameter.
\<close>

datatype qc_language = Python | CSharp

text \<open>
  A working root \<^verbatim>\<open>/w\<close> with the project \<^verbatim>\<open>a\<close> (two tracked files, language Python, id
  1), the project \<^verbatim>\<open>b\<close> (no tracked file, a stored language that is no member, no id yet)
  and a regular file \<^verbatim>\<open>f\<close>. Times are kept as their nanosecond counts.
\<close>

definition example_root :: fs where
  "example_root =
     [([''w''], Directory),
      ([''w'', ''a''], Directory),
      ([''w'', ''a'', ''config.json''],
         ConfigFile [(''local-id'', JInt 1), (''language'', JStr ''Python'')]),
      ([''w'', ''a'', ''main.py''], RegularFile ''print(1)''),
      ([''w'', ''a'', ''research.py''], RegularFile ''print(2)''),
      ([''w'', ''b''], Directory),
      ([''w'', ''b'', ''config.json''], ConfigFile [(''language'', JStr ''Ruby'')]),
      ([''w'', ''f''], RegularFile ''notes'')]"

definition example_ps_env :: "(qc_language, int) ps_env" where
  "example_ps_env =
     \<lparr>cli_root = [''w''],
      config_file_name = ''config.json'',
      files_to_sync = (\<lambda>fs d. if d = [''w'', ''a'']
                                then [[''w'', ''a'', ''main.py''], [''w'', ''a'', ''research.py'']]
                                else []),
      stat = (\<lambda>fs p. if p = [''w'', ''a'', ''main.py'']
                          then Some \<lparr>st_mtime_ns = 10, st_ctime_ns = 7\<rparr>
                        else if p = [''w'', ''a'', ''research.py'']
                          then Some \<lparr>st_mtime_ns = 20, st_ctime_ns = 5\<rparr>
                        else if path_exists fs p then Some \<lparr>st_mtime_ns = 3, st_ctime_ns = 2\<rparr>
                        else None),
      members = [(''CSharp'', CSharp), (''Python'', Python)],
      fresh_id = (\<lambda>fs p. 100 + int (length fs)),
      utc_of_ns = (\<lambda>ns. ns),
      now = 0,
      fake_organization_id = ''abc'',
      fake_member_id = 1,
      fake_member_name = ''local'',
      create_project_callback = (\<lambda>n l fs. Inr fs)\<rparr>"

text \<open>The metadata record of the project \<^verbatim>\<open>a\<close> of the concrete root.\<close>

definition example_project :: "(qc_language, int) qc_project" where
  "example_project =
     \<lparr>projectId = 1, organizationId = ''abc'', name = ''a'',
      description = JStr [], modified = 20, created = 5, language = Python,
      collaborators =
        [\<lparr>c_id = 0, c_uid = 1, c_blivecontrol = True, c_epermission = ''write'',
          c_profileimage = ''https://cdn.quantconnect.com/i/tu/qc-logo.svg'',
          c_name = ''local'', c_owner = True\<rparr>],
      leanVersionId = - 1, leanPinnedToMaster = True, parameters = [],
      liveResults = ''Undefined'', libraries = []\<rparr>"


text \<open>
  An update request for the project \<^verbatim>\<open>a\<close> of the concrete root that sets a description
  and two parameters and asks for the name of the existing project \<^verbatim>\<open>b\<close>, and the root
  as the first two updates leave it.
\<close>

definition example_update :: input where
  "example_update =
     [(''projectId'', ''1''), (''description'', ''momentum''),
      (''parameters[0][key]'', ''a''), (''parameters[0][value]'', ''1''),
      (''parameters[1][key]'', ''b''), (''parameters[1][value]'', ''2''),
      (''name'', ''/b'')]"

definition example_root_updated :: fs where
  "example_root_updated =
     [([''w''], Directory),
      ([''w'', ''a''], Directory),
      ([''w'', ''a'', ''config.json''],
         ConfigFile [(''local-id'', JInt 1), (''language'', JStr ''Python''),
                     (''description'', JStr ''momentum''),
                     (''parameters'', JObj [(''a'', JStr ''1''), (''b'', JStr ''2'')])]),
      ([''w'', ''a'', ''main.py''], RegularFile ''print(1)''),
      ([''w'', ''a'', ''research.py''], RegularFile ''print(2)''),
      ([''w'', ''b''], Directory),
      ([''w'', ''b'', ''config.json''], ConfigFile [(''language'', JStr ''Ruby'')]),
      ([''w'', ''f''], RegularFile ''notes'')]"



text \<open>
  A request that sets a description and two parameters, and the concrete root after a
  request that clears the parameters again.
\<close>

definition example_set_parameters :: input where
  "example_set_parameters =
     [(''projectId'', ''1''), (''description'', ''momentum''),
      (''parameters[0][key]'', ''a''), (''parameters[0][value]'', ''1''),
      (''parameters[1][key]'', ''b''), (''parameters[1][value]'', ''2'')]"

definition example_root_cleared :: fs where
  "example_root_cleared =
     [([''w''], Directory),
      ([''w'', ''a''], Directory),
      ([''w'', ''a'', ''config.json''],
         ConfigFile [(''local-id'', JInt 1), (''language'', JStr ''Python''),
                     (''description'', JStr ''momentum''), (''parameters'', JObj [])]),
      ([''w'', ''a'', ''main.py''], RegularFile ''print(1)''),
      ([''w'', ''a'', ''research.py''], RegularFile ''print(2)''),
      ([''w'', ''b''], Directory),
      ([''w'', ''b'', ''config.json''], ConfigFile [(''language'', JStr ''Ruby'')]),
      ([''w'', ''f''], RegularFile ''notes'')]"




section \<open>Properties of the dispatcher\<close>







section \<open>Properties of the data file fetcher\<close>

lemma download_file_failed:
  assumes "overwrite_gate env flag (path_join dir file) s = (True, s1)"
      and "remote env (length (requests s1)) file org = Failed e"
  shows "download_file env file flag dir org s =
           (if file_not_found e
            then (None, s1\<lparr>requests := requests s1 @ [file],
                           log := log s1 @ [not_billed_warning file]\<rparr>)
            else (Some e, s1\<lparr>requests := requests s1 @ [file]\<rparr>))"
  using assms
  by (cases e) (simp_all add: download_file_def file_not_found_def Let_def)






lemma node_at_append_new:
  "node_at fs q = None \<Longrightarrow>
   node_at (fs @ [(q, n)]) p = (if p = q then Some n else node_at fs p)"
  by (auto simp: node_at_def map_add_def split: option.splits if_splits)



lemma node_at_update:
  "p \<noteq> [] \<Longrightarrow> node_at (AList.update p n fs) q = (if q = p then Some n else node_at fs q)"
  by (simp add: node_at_def update_conv')







text \<open>
  C8: a file of the batch has reached the fetch (the guard let it through, leaving the
  state \<open>s1\<close>) and the remote client raised \<open>e\<close>. If \<open>e\<close> is a \<^verbatim>\<open>RequestFailedError\<close>
  whose message contains \<^verbatim>\<open>File not found\<close>, the only effect is the warning that the
  organization was not billed, and the loop goes on with the next file; any other
  exception leaves the loop at once: it is the result of the run, and none of the
  remaining files is requested or written.
\<close>

theorem C8_fetch_failure:
  assumes "overwrite_gate env flag (path_join dir file)
             (s\<lparr>log := log s @ [progress_line i n file]\<rparr>) = (True, s1)"
      and "remote env (length (requests s1)) file org = Failed e"
  shows "download_loop env i n (file # rest) flag dir org s =
           (if file_not_found e
            then download_loop env (i + 1) n rest flag dir org
                   (s1\<lparr>requests := requests s1 @ [file],
                        log := log s1 @ [not_billed_warning file]\<rparr>)
            else (Some e, s1\<lparr>requests := requests s1 @ [file]\<rparr>))"
  by (simp add: download_file_failed [OF assms])


lemma example_gate:
  "f = ''c.zip'' \<or> f = ''d.zip'' \<Longrightarrow>
   overwrite_gate example_env False (path_join [''data''] f)
     (example_state\<lparr>log := log example_state @ [progress_line 0 2 f]\<rparr>) =
   (True, example_state\<lparr>log := [progress_line 0 2 f]\<rparr>)"
  by (auto simp: overwrite_gate_def example_state_def path_join_def parts_def
        path_exists_def node_at_def)

theorem C8_fetch_failure_witness:
  "download_loop example_env 0 2 [''c.zip'', ''b.zip''] False [''data''] ''org'' example_state =
     download_loop example_env 1 2 [''b.zip''] False [''data''] ''org''
       (example_state\<lparr>log := [progress_line 0 2 ''c.zip'', not_billed_warning ''c.zip''],
                       requests := [''c.zip'']\<rparr>) \<and>
   download_loop example_env 0 2 [''d.zip'', ''b.zip''] False [''data''] ''org'' example_state =
     (Some (OtherError ''connection reset''),
      example_state\<lparr>log := [progress_line 0 2 ''d.zip''], requests := [''d.zip'']\<rparr>)"
proof -
  have gc: "overwrite_gate example_env False (path_join [''data''] ''c.zip'')
              (example_state\<lparr>log := log example_state @ [progress_line 0 2 ''c.zip'']\<rparr>) =
            (True, example_state\<lparr>log := [progress_line 0 2 ''c.zip'']\<rparr>)"
    by (simp add: example_gate)
  have rc: "remote example_env
              (length (requests (example_state\<lparr>log := [progress_line 0 2 ''c.zip'']\<rparr>)))
              ''c.zip'' ''org'' = Failed (RequestFailedError ''File not found'')"
    by (simp add: example_env_def)
  have gd: "overwrite_gate example_env False (path_join [''data''] ''d.zip'')
              (example_state\<lparr>log := log example_state @ [progress_line 0 2 ''d.zip'']\<rparr>) =
            (True, example_state\<lparr>log := [progress_line 0 2 ''d.zip'']\<rparr>)"
    by (simp add: example_gate)
  have rd: "remote example_env
              (length (requests (example_state\<lparr>log := [progress_line 0 2 ''d.zip'']\<rparr>)))
              ''d.zip'' ''org'' = Failed (OtherError ''connection reset'')"
    by (simp add: example_env_def)
  have nf: "file_not_found (RequestFailedError ''File not found'')"
    by (simp add: file_not_found_def)
  have ot: "\<not> file_not_found (OtherError ''connection reset'')"
    by (simp add: file_not_found_def)
  from C8_fetch_failure [OF gc rc, of "[''b.zip'']"] C8_fetch_failure [OF gd rd, of "[''b.zip'']"]
  show ?thesis
    using nf ot by (simp add: example_state_def)
qed



section \<open>Properties of the project handler\<close>

subsection \<open>The language selector of a create request\<close>

text \<open>
  C10: a create request with a name and a language calls the scaffolding command once,
  with the name stripped of its leading slashes and with \<^verbatim>\<open>python\<close> exactly when the
  language field is the string \<^verbatim>\<open>Py\<close>; every other value, the string \<^verbatim>\<open>Python\<close> among
  them, gives \<^verbatim>\<open>csharp\<close>.
\<close>

theorem C10_language_selector:
  assumes "getitem inp ''name'' = Inr n" and "getitem inp ''language'' = Inr l"
  shows "scaffold_calls (snd (projects_create env inp s)) =
           scaffold_calls s @ [(lstrip_slash n, if l = ''Py'' then ''python'' else ''csharp'')] \<and>
         (l = ''Py'' \<longrightarrow> snd (last (scaffold_calls (snd (projects_create env inp s)))) = ''python'') \<and>
         (l \<noteq> ''Py'' \<longrightarrow> snd (last (scaffold_calls (snd (projects_create env inp s)))) = ''csharp'') \<and>
         (l = ''Python'' \<longrightarrow> snd (last (scaffold_calls (snd (projects_create env inp s)))) = ''csharp'')"
proof -
  have "scaffold_calls (snd (projects_create env inp s)) =
           scaffold_calls s @ [(lstrip_slash n, if l = ''Py'' then ''python'' else ''csharp'')]"
    using assms
    by (simp add: projects_create_def Let_def split: sum.splits prod.splits)
  then show ?thesis by simp
qed

theorem C10_language_selector_witness:
  "scaffold_calls (snd (projects_create example_ps_env [(''name'', ''/n''), (''language'', ''Python'')]
       \<lparr>server_fs = example_root, scaffold_calls = []\<rparr>)) = [(''n'', ''csharp'')] \<and>
   scaffold_calls (snd (projects_create example_ps_env [(''name'', ''n''), (''language'', ''Py'')]
       \<lparr>server_fs = example_root, scaffold_calls = []\<rparr>)) = [(''n'', ''python'')]"
proof -
  have a: "getitem [(''name'', ''/n''), (''language'', ''Python'')] ''name'' = Inr ''/n''"
    and b: "getitem [(''name'', ''/n''), (''language'', ''Python'')] ''language'' = Inr ''Python''"
    and c: "getitem [(''name'', ''n''), (''language'', ''Py'')] ''name'' = Inr ''n''"
    and d: "getitem [(''name'', ''n''), (''language'', ''Py'')] ''language'' = Inr ''Py''"
    by (simp_all add: getitem_def)
  from C10_language_selector [OF a b, of example_ps_env] C10_language_selector [OF c d, of example_ps_env]
  show ?thesis by (simp add: lstrip_slash_def)
qed

subsection \<open>The sidecar after a write, and the steps of the metadata derivation\<close>

lemma write_node_Inr:
  "write_node fs p n = Inr fs' \<Longrightarrow> fs' = AList.update p n fs \<and> p \<noteq> []"
  by (auto simp: write_node_def is_dir_def node_at_def split: if_splits)

lemma config_path_nonempty: "config_path env d \<noteq> []"
  by (simp add: config_path_def)

lemma config_set_Inr:
  assumes "config_set env d c k v fs = Inr (c', fs')"
  obtains fs1 where "mkdir_parents fs d = Inr fs1"
    and "write_node fs1 (config_path env d) (ConfigFile (AList.update k v c)) = Inr fs'"
    and "c' = AList.update k v c"
proof (cases "mkdir_parents fs d")
  case (Inl e)
  with assms show thesis by (simp add: config_set_def)
next
  case (Inr fs1)
  show thesis
  proof (cases "write_node fs1 (config_path env d) (ConfigFile (AList.update k v c))")
    case (Inl e)
    with Inr assms show thesis by (simp add: config_set_def)
  next
    case w: (Inr fs2)
    with Inr assms have "c' = AList.update k v c" "fs2 = fs'" by (simp_all add: config_set_def)
    with Inr w that show thesis by simp
  qed
qed

lemma config_set_config:
  assumes "config_set env d c k v fs = Inr (c', fs')"
  shows "c' = AList.update k v c" and "get_project_config env fs' d = AList.update k v c"
proof -
  from assms obtain fs1 where w: "write_node fs1 (config_path env d) (ConfigFile (AList.update k v c)) = Inr fs'"
    and c': "c' = AList.update k v c"
    by (rule config_set_Inr)
  from write_node_Inr [OF w] show "get_project_config env fs' d = AList.update k v c"
    by (simp add: get_project_config_def node_at_update)
  show "c' = AList.update k v c" by (rule c')
qed

lemma get_local_id_config:
  assumes "get_local_id env d fs = (Inr i, fs')"
  shows "get_project_config env fs' d =
           (if map_of (get_project_config env fs d) local_id_key = None
            then AList.update local_id_key (JInt i) (get_project_config env fs d)
            else get_project_config env fs d)"
    and "map_of (get_project_config env fs' d) local_id_key = Some (JInt i)"
proof -
  let ?c = "get_project_config env fs d"
  show 1: "get_project_config env fs' d =
           (if map_of ?c local_id_key = None then AList.update local_id_key (JInt i) ?c else ?c)"
  proof (cases "map_of ?c local_id_key")
    case None
    with assms obtain c' where "config_set env d ?c local_id_key (JInt i) fs = Inr (c', fs')"
      by (auto simp: get_local_id_def Let_def split: sum.splits)
    from config_set_config(2) [OF this] None show ?thesis by simp
  next
    case (Some v)
    with assms have "fs' = fs"
      by (auto simp: get_local_id_def Let_def split: json.splits)
    with Some show ?thesis by simp
  qed
  show "map_of (get_project_config env fs' d) local_id_key = Some (JInt i)"
  proof (cases "map_of ?c local_id_key")
    case None
    with 1 show ?thesis by (simp add: update_conv')
  next
    case (Some v)
    with assms have "v = JInt i"
      by (auto simp: get_local_id_def Let_def split: json.splits)
    with 1 Some show ?thesis by simp
  qed
qed

lemma get_local_id_other_key:
  assumes "get_local_id env d fs = (Inr i, fs')" and "k \<noteq> local_id_key"
  shows "map_of (get_project_config env fs' d) k = map_of (get_project_config env fs d) k"
  using get_local_id_config(1) [OF assms(1)] assms(2) by (simp add: update_conv')

lemma next_member_Inr:
  "next_member ms (JStr l) = Inr v \<Longrightarrow> map_of ms l = Some v"
  by (induction ms) (auto split: if_splits)

lemma create_project_Inr:
  assumes "create_project env d fs = (Inr p, fs')"
  obtains i rel tracked stats where
    "get_local_id env d fs = (Inr i, fs')"
    "relative_to d (cli_root env) = Inr rel"
    "stats_of (stat env fs') (files_to_sync env fs' d) = Inr tracked"
    "stats_of (stat env fs') (if tracked = [] then [d] else files_to_sync env fs' d) = Inr stats"
    "py_max (map st_mtime_ns stats) = Inr (foldl max (st_mtime_ns (hd stats)) (map st_mtime_ns (tl stats)))"
    "stats \<noteq> []"
    "projectId p = i"
    "name p = as_posix rel"
    "modified p = utc_of_ns env (foldl max (st_mtime_ns (hd stats)) (map st_mtime_ns (tl stats)))"
    "created p = utc_of_ns env (foldl min (st_ctime_ns (hd stats)) (map st_ctime_ns (tl stats)))"
    "items (config_get (get_project_config env fs' d) ''parameters'' (JObj [])) =
       Inr (map (\<lambda>q. (qc_key q, qc_value q)) (parameters p))"
    "next_member (members env) (config_get (get_project_config env fs' d) ''language'' (JStr ''Python'')) =
       Inr (language p)"
    "description p = config_get (get_project_config env fs' d) ''description'' (JStr '''')"
proof -
  from assms obtain i where g: "get_local_id env d fs = (Inr i, fs')"
    by (auto simp: create_project_def Let_def split: prod.splits sum.splits)
  let ?c = "get_project_config env fs' d"
  from assms g obtain rel tracked stats mx mn kvs lang where
    r: "relative_to d (cli_root env) = Inr rel"
    and t: "stats_of (stat env fs') (files_to_sync env fs' d) = Inr tracked"
    and s: "(if length tracked = 0 then stats_of (stat env fs') [d] else Inr tracked) = Inr stats"
    and mx: "py_max (map st_mtime_ns stats) = Inr mx"
    and mn: "py_min (map st_ctime_ns stats) = Inr mn"
    and kv: "items (config_get ?c ''parameters'' (JObj [])) = Inr kvs"
    and l: "next_member (members env) (config_get ?c ''language'' (JStr ''Python'')) = Inr lang"
    and p: "p = \<lparr>projectId = i, organizationId = fake_organization_id env,
                name = as_posix rel,
                description = config_get ?c ''description'' (JStr ''''),
                modified = utc_of_ns env mx, created = utc_of_ns env mn, language = lang,
                collaborators =
                  [\<lparr>c_id = 0, c_uid = fake_member_id env, c_blivecontrol = True,
                    c_epermission = ''write'',
                    c_profileimage = ''https://cdn.quantconnect.com/i/tu/qc-logo.svg'',
                    c_name = fake_member_name env, c_owner = True\<rparr>],
                leanVersionId = - 1, leanPinnedToMaster = True,
                parameters = map (\<lambda>(k, v). \<lparr>qc_key = k, qc_value = v\<rparr>) kvs,
                liveResults = ''Undefined'', libraries = []\<rparr>"
    by (simp add: create_project_def Let_def split: sum.splits) 
  from mx have ne: "stats \<noteq> []" by (cases stats) auto
  from s t have s': "stats_of (stat env fs') (if tracked = [] then [d] else files_to_sync env fs' d) = Inr stats"
    by (auto split: if_splits)
  from mx ne have mx': "mx = foldl max (st_mtime_ns (hd stats)) (map st_mtime_ns (tl stats))"
    by (cases stats) auto
  from mn ne have mn': "mn = foldl min (st_ctime_ns (hd stats)) (map st_ctime_ns (tl stats))"
    by (cases stats) auto
  have kv': "map (\<lambda>q. (qc_key q, qc_value q)) (parameters p) = kvs"
    by (simp add: p comp_def case_prod_beta)
  show thesis
    by (rule that [OF g r t s' _ ne]) (use mx mx' mn' kv kv' l p in simp_all)
qed

lemma foldl_max: "foldl max (x::int) xs = Max (insert x (set xs))"
proof (induction xs arbitrary: x)
  case Nil
  then show ?case by simp
next
  case (Cons a xs)
  have "Max (insert (max x a) (set xs)) = Max (insert x (insert a (set xs)))"
    by (cases "set xs = {}") (auto simp: max.assoc)
  with Cons show ?case by simp
qed

lemma foldl_min: "foldl min (x::int) xs = Min (insert x (set xs))"
proof (induction xs arbitrary: x)
  case Nil
  then show ?case by simp
next
  case (Cons a xs)
  have "Min (insert (min x a) (set xs)) = Min (insert x (insert a (set xs)))"
    by (cases "set xs = {}") (auto simp: min.assoc)
  with Cons show ?case by simp
qed

lemma stats_of_Inr: "stats_of st fs = Inr ss \<Longrightarrow> map st fs = map Some ss"
  by (induction fs arbitrary: ss) (auto split: option.splits sum.splits)


lemma example_project_a:
  "create_project example_ps_env [''w'', ''a''] example_root = (Inr example_project, example_root)"
  by code_simp


lemma example_language_a:
  "map_of (get_project_config example_ps_env example_root [''w'', ''a'']) ''language'' = Some (JStr ''Python'')"
  by code_simp


subsection \<open>Timestamps\<close>

text \<open>
  C5: when the metadata derivation of a project succeeds, the stat records it used are
  those of the files that the sync component would upload, or the one of the project
  directory when there is no such file; the modification time of the record is the
  conversion of the largest \<open>st_mtime_ns\<close> among them and the creation time the
  conversion of the smallest \<open>st_ctime_ns\<close>. The conversion to a UTC time is the
  parameter \<open>utc_of_ns\<close>.
\<close>

theorem C5_timestamps:
  assumes "create_project env project_dir fs = (Inr p, fs')"
  shows "\<exists>stats.
           map (stat env fs')
             (if files_to_sync env fs' project_dir = [] then [project_dir]
              else files_to_sync env fs' project_dir) = map Some stats \<and>
           stats \<noteq> [] \<and>
           modified p = utc_of_ns env (Max (st_mtime_ns ` set stats)) \<and>
           created p = utc_of_ns env (Min (st_ctime_ns ` set stats))"
proof -
  from assms obtain tracked stats where
    t: "stats_of (stat env fs') (files_to_sync env fs' project_dir) = Inr tracked"
    and s: "stats_of (stat env fs')
              (if tracked = [] then [project_dir] else files_to_sync env fs' project_dir) = Inr stats"
    and ne: "stats \<noteq> []"
    and m: "modified p =
              utc_of_ns env (foldl max (st_mtime_ns (hd stats)) (map st_mtime_ns (tl stats)))"
    and c: "created p =
              utc_of_ns env (foldl min (st_ctime_ns (hd stats)) (map st_ctime_ns (tl stats)))"
    by (rule create_project_Inr)
  from stats_of_Inr [OF t] have "length (files_to_sync env fs' project_dir) = length tracked"
    by (metis length_map)
  then have e: "tracked = [] \<longleftrightarrow> files_to_sync env fs' project_dir = []" by auto
  from ne obtain x xs where x: "stats = x # xs" by (cases stats) auto
  have "modified p = utc_of_ns env (Max (st_mtime_ns ` set stats))"
    using m by (simp add: x foldl_max)
  moreover have "created p = utc_of_ns env (Min (st_ctime_ns ` set stats))"
    using c by (simp add: x foldl_min)
  ultimately show ?thesis
    using stats_of_Inr [OF s] ne e by auto
qed


theorem C5_timestamps_witness:
  "create_project example_ps_env [''w'', ''a''] example_root = (Inr example_project, example_root) \<and>
   files_to_sync example_ps_env example_root [''w'', ''a''] =
     [[''w'', ''a'', ''main.py''], [''w'', ''a'', ''research.py'']] \<and>
   modified example_project = 20 \<and> created example_project = 5"
proof -
  from C5_timestamps [OF example_project_a] obtain stats where
    s: "map (stat example_ps_env example_root)
          (if files_to_sync example_ps_env example_root [''w'', ''a''] = [] then [[''w'', ''a'']]
           else files_to_sync example_ps_env example_root [''w'', ''a'']) = map Some stats"
    and m: "modified example_project = utc_of_ns example_ps_env (Max (st_mtime_ns ` set stats))"
    and c: "created example_project = utc_of_ns example_ps_env (Min (st_ctime_ns ` set stats))"
    by blast
  have f: "files_to_sync example_ps_env example_root [''w'', ''a''] =
     [[''w'', ''a'', ''main.py''], [''w'', ''a'', ''research.py'']]"
    by (simp add: example_ps_env_def)
  from s have "stats = [\<lparr>st_mtime_ns = 10, st_ctime_ns = 7\<rparr>, \<lparr>st_mtime_ns = 20, st_ctime_ns = 5\<rparr>]"
    by (auto simp: f example_ps_env_def)
  with m c have "modified example_project = 20" "created example_project = 5"
    by (simp_all add: example_ps_env_def)
  with f example_project_a show ?thesis by simp
qed


subsection \<open>The language of a project\<close>

text \<open>
  C6: the sidecar of a project stores the language string \<open>l\<close>. If the metadata
  derivation succeeds, \<open>l\<close> is the name of a declared member of the enum and the
  language of the record is that member, never a default; if \<open>l\<close> is the name of no
  member, the derivation fails with an exception.
\<close>

theorem C6_language_lookup:
  assumes "map_of (get_project_config env fs project_dir) ''language'' = Some (JStr l)"
  shows "(\<forall>p fs'. create_project env project_dir fs = (Inr p, fs') \<longrightarrow>
            map_of (members env) l = Some (language p)) \<and>
         (l \<notin> fst ` set (members env) \<longrightarrow>
            (\<exists>e. fst (create_project env project_dir fs) = Inl e))"
proof -
  have ok: "map_of (members env) l = Some (language p)"
    if c: "create_project env project_dir fs = (Inr p, fs')" for p fs'
  proof -
    from c obtain i where g: "get_local_id env project_dir fs = (Inr i, fs')"
      and n: "next_member (members env)
                (config_get (get_project_config env fs' project_dir) ''language'' (JStr ''Python'')) =
              Inr (language p)"
      by (rule create_project_Inr)
    have "map_of (get_project_config env fs' project_dir) ''language'' = Some (JStr l)"
      using get_local_id_other_key [OF g, of "''language''"] assms
      by (simp add: local_id_key_def)
    with n have "next_member (members env) (JStr l) = Inr (language p)"
      by (simp add: config_get_def)
    then show ?thesis by (rule next_member_Inr)
  qed
  have "\<exists>e. fst (create_project env project_dir fs) = Inl e" if "l \<notin> fst ` set (members env)"
  proof (cases "create_project env project_dir fs")
    case (Pair r fs')
    show ?thesis
    proof (cases r)
      case (Inl e)
      with Pair show ?thesis by simp
    next
      case (Inr p)
      with Pair ok have "map_of (members env) l = Some (language p)" by simp
      then have "l \<in> fst ` set (members env)"
        by (metis domI dom_map_of_conv_image_fst)
      with that show ?thesis by simp
    qed
  qed
  with ok show ?thesis by blast
qed


theorem C6_language_lookup_witness:
  "map_of (get_project_config example_ps_env example_root [''w'', ''a'']) ''language'' =
     Some (JStr ''Python'') \<and>
   map_of (members example_ps_env) ''Python'' = Some (language example_project) \<and>
   map_of (get_project_config example_ps_env example_root [''w'', ''b'']) ''language'' =
     Some (JStr ''Ruby'') \<and>
   ''Ruby'' \<notin> fst ` set (members example_ps_env) \<and>
   (\<exists>e. fst (create_project example_ps_env [''w'', ''b''] example_root) = Inl e)"
proof -
  have a: "map_of (get_project_config example_ps_env example_root [''w'', ''a'']) ''language'' =
     Some (JStr ''Python'')"
    and b: "map_of (get_project_config example_ps_env example_root [''w'', ''b'']) ''language'' =
     Some (JStr ''Ruby'')"
    by code_simp+
  have r: "''Ruby'' \<notin> fst ` set (members example_ps_env)"
    by (simp add: example_ps_env_def)
  from C6_language_lookup [OF a] example_project_a
  have "map_of (members example_ps_env) ''Python'' = Some (language example_project)"
    by blast
  moreover from C6_language_lookup [OF b] r
  have "\<exists>e. fst (create_project example_ps_env [''w'', ''b''] example_root) = Inl e"
    by blast
  ultimately show ?thesis using a b r by simp
qed

subsection \<open>The order of the partial updates\<close>

lemma param_key_0: "param_key 0 = ''parameters[0][key]''"
  by (simp add: param_key_def str_nat.simps digit_def)

lemma has_key_getitem: "has_key inp k \<Longrightarrow> \<exists>v. getitem inp k = Inr v \<and> map_of inp k = Some v"
  by (auto simp: has_key_def getitem_def map_of_eq_None_iff split: option.splits)

lemma not_has_key: "\<not> has_key inp k \<Longrightarrow> map_of inp k = None"
  by (simp add: has_key_def map_of_eq_None_iff)

lemma projects_update_in_order:
  assumes "getitem inp ''projectId'' = Inr pid" and "py_int pid = Inr i"
      and "find_project_by_id env fs i = Inr project_dir"
  shows "projects_update env inp fs = update_in_order env inp project_dir fs"
proof -
  let ?c = "get_project_config env fs project_dir"
  have d: "(if has_key inp ''description''
            then (case getitem inp ''description'' of
                    Inl e \<Rightarrow> Inl e
                  | Inr v \<Rightarrow> config_set env project_dir ?c ''description'' (JStr v) fs)
            else Inr (?c, fs)) = set_description_step env inp project_dir (?c, fs)"
    by (auto simp: set_description_step_def dest: has_key_getitem not_has_key)
  have p: "(if has_key inp ''parameters''
            then config_set env project_dir c1 ''parameters'' (JObj []) fs1
            else if has_key inp ''parameters[0][key]''
            then (case parameters_loop inp 0 [] of
                    Inl e \<Rightarrow> Inl e
                  | Inr ps \<Rightarrow> config_set env project_dir c1 ''parameters'' (JObj ps) fs1)
            else Inr (c1, fs1)) = set_parameters_step env inp project_dir (c1, fs1)" for c1 fs1
    by (simp add: set_parameters_step_def param_key_0 split: sum.splits)
  note defs = projects_update_def update_in_order_def
  show ?thesis
  proof (cases "set_description_step env inp project_dir (?c, fs)")
    case (Inl e)
    then show ?thesis by (simp add: defs assms Let_def d)
  next
    case 1: (Inr cf1)
    obtain c1 fs1 where cf1: "cf1 = (c1, fs1)" by (cases cf1)
    show ?thesis
    proof (cases "set_parameters_step env inp project_dir (c1, fs1)")
      case (Inl e)
      with 1 cf1 show ?thesis by (simp add: defs assms Let_def d p)
    next
      case 2: (Inr cf2)
      obtain c2 fs2 where cf2: "cf2 = (c2, fs2)" by (cases cf2)
      from 1 2 cf1 cf2 show ?thesis
        by (auto simp: defs assms Let_def d p rename_step_def dest: has_key_getitem not_has_key)
    qed
  qed
qed


text \<open>
  C3: for an update request whose project id resolves to a project directory, the
  handler does what the sequence of the three steps does: the description step, then
  the parameters step on its result, then the rename on the result of both; a failing
  step ends the call with the effects of the steps before it in place. Each step
  leaves its argument as it is when its field is absent from the request.
\<close>

theorem C3_update_order:
  assumes "getitem inp ''projectId'' = Inr pid" and "py_int pid = Inr i"
      and "find_project_by_id env fs i = Inr project_dir"
  shows "projects_update env inp fs = update_in_order env inp project_dir fs \<and>
         (\<not> has_key inp ''description'' \<longrightarrow>
            set_description_step env inp project_dir cf = Inr cf) \<and>
         (\<not> has_key inp ''parameters'' \<and> \<not> has_key inp ''parameters[0][key]'' \<longrightarrow>
            set_parameters_step env inp project_dir cf = Inr cf) \<and>
         (\<not> has_key inp ''name'' \<longrightarrow> rename_step env inp project_dir fs' = Inr fs')"
proof -
  have "set_description_step env inp project_dir cf = Inr cf" if "\<not> has_key inp ''description''"
    using not_has_key [OF that] by (simp add: set_description_step_def)
  moreover have "set_parameters_step env inp project_dir cf = Inr cf"
    if "\<not> has_key inp ''parameters'' \<and> \<not> has_key inp ''parameters[0][key]''"
    using that by (simp add: set_parameters_step_def param_key_0)
  moreover have "rename_step env inp project_dir fs' = Inr fs'" if "\<not> has_key inp ''name''"
    using not_has_key [OF that] by (simp add: rename_step_def)
  ultimately show ?thesis
    using projects_update_in_order [OF assms] by blast
qed

lemma example_update_resolves:
  "getitem example_update ''projectId'' = Inr ''1''" "py_int ''1'' = Inr 1"
  "find_project_by_id example_ps_env example_root 1 = Inr [''w'', ''a'']"
  by code_simp+

lemma example_update_steps:
  "update_in_order example_ps_env example_update [''w'', ''a''] example_root =
     (Inl (conflict ''/b''), example_root_updated)"
  by code_simp

theorem C3_update_order_witness:
  "projects_update example_ps_env example_update example_root =
     update_in_order example_ps_env example_update [''w'', ''a''] example_root \<and>
   projects_update example_ps_env example_update example_root =
     (Inl (conflict ''/b''), example_root_updated)"
  using C3_update_order [OF example_update_resolves]
  by (simp add: example_update_steps)

subsection \<open>Well-formed file systems\<close>

lemma listed_iff: "p \<noteq> [] \<Longrightarrow> (p \<in> fst ` set fs) = path_exists fs p"
  by (simp add: path_exists_def node_at_def map_of_eq_None_iff)

lemma is_dir_exists: "is_dir fs p \<Longrightarrow> path_exists fs p"
  by (simp add: is_dir_def path_exists_def)

lemma wf_parent: "wf_fs fs \<Longrightarrow> path_exists fs p \<Longrightarrow> p \<noteq> [] \<Longrightarrow> is_dir fs (butlast p)"
  using listed_iff [of p fs] by (auto simp: wf_fs_def)

lemma wf_ancestor:
  "wf_fs fs \<Longrightarrow> path_exists fs (q @ r) \<Longrightarrow> r \<noteq> [] \<Longrightarrow> is_dir fs q"
proof (induction r rule: rev_induct)
  case Nil
  then show ?case by simp
next
  case (snoc c r)
  from wf_parent [OF snoc.prems(1,2)] have d: "is_dir fs (q @ r)"
    by (simp add: butlast_append)
  show ?case
  proof (cases "r = []")
    case True
    with d show ?thesis by simp
  next
    case False
    from snoc.IH [OF snoc.prems(1) is_dir_exists [OF d] False] show ?thesis .
  qed
qed

lemma wf_nothing_below:
  "wf_fs fs \<Longrightarrow> \<not> path_exists fs q \<Longrightarrow> \<not> path_exists fs (q @ r)"
  using wf_ancestor [of fs q r] is_dir_exists [of fs q] by (cases "r = []") auto

lemma mkdirs_keeps:
  "mkdirs fs made cs = Inr fs' \<Longrightarrow> node_at fs p \<noteq> None \<Longrightarrow> node_at fs' p = node_at fs p"
proof (induction cs arbitrary: fs made)
  case Nil
  then show ?case by simp
next
  case (Cons c cs)
  show ?case
  proof (cases "node_at fs (made @ [c])")
    case None
    with Cons.prems have m: "mkdirs (fs @ [(made @ [c], Directory)]) (made @ [c]) cs = Inr fs'"
      by simp
    have "node_at (fs @ [(made @ [c], Directory)]) p = node_at fs p"
      using None Cons.prems(2) by (auto simp: node_at_append_new)
    with Cons.IH [OF m] Cons.prems(2) show ?thesis by simp
  next
    case (Some n)
    with Cons.prems have "mkdirs fs (made @ [c]) cs = Inr fs'"
      by (cases n) simp_all
    from Cons.IH [OF this Cons.prems(2)] show ?thesis .
  qed
qed

lemma mkdirs_new:
  "mkdirs fs made cs = Inr fs' \<Longrightarrow> node_at fs' p \<noteq> node_at fs p \<Longrightarrow>
     prefix p (made @ cs) \<and> length made < length p \<and> node_at fs' p = Some Directory"
proof (induction cs arbitrary: fs made)
  case Nil
  then show ?case by simp
next
  case (Cons c cs)
  show ?case
  proof (cases "node_at fs (made @ [c])")
    case None
    let ?fs1 = "fs @ [(made @ [c], Directory)]"
    from None Cons.prems have m: "mkdirs ?fs1 (made @ [c]) cs = Inr fs'"
      by simp
    show ?thesis
    proof (cases "node_at fs' p = node_at ?fs1 p")
      case True
      with Cons.prems(2) None have "p = made @ [c]" "node_at fs' p = Some Directory"
        by (auto simp: node_at_append_new split: if_splits)
      then show ?thesis by simp
    next
      case False
      from Cons.IH [OF m False] show ?thesis by simp
    qed
  next
    case (Some n)
    with Cons.prems have "mkdirs fs (made @ [c]) cs = Inr fs'"
      by (cases n) simp_all
    from Cons.IH [OF this Cons.prems(2)] show ?thesis by simp
  qed
qed

lemma wf_append:
  assumes "wf_fs fs" and "node_at fs q = None" and "is_dir fs (butlast q)"
  shows "wf_fs (fs @ [(q, n)])"
proof -
  from assms(2) have q: "q \<noteq> []" "q \<notin> fst ` set fs"
    by (auto simp: node_at_def map_of_eq_None_iff split: if_splits)
  have d: "is_dir (fs @ [(q, n)]) p" if "is_dir fs p" for p
    using that assms(2) by (auto simp: is_dir_def node_at_append_new)
  from assms(1) q d [OF assms(3)] show ?thesis
    by (auto simp: wf_fs_def intro: d)
qed

lemma wf_mkdirs:
  "mkdirs fs made cs = Inr fs' \<Longrightarrow> wf_fs fs \<Longrightarrow> is_dir fs made \<Longrightarrow> wf_fs fs'"
proof (induction cs arbitrary: fs made)
  case Nil
  then show ?case by simp
next
  case (Cons c cs)
  show ?case
  proof (cases "node_at fs (made @ [c])")
    case None
    let ?fs1 = "fs @ [(made @ [c], Directory)]"
    from None Cons.prems have m: "mkdirs ?fs1 (made @ [c]) cs = Inr fs'"
      by simp
    have w: "wf_fs ?fs1" using Cons.prems(2,3) None by (intro wf_append) simp_all
    have "is_dir ?fs1 (made @ [c])" using None by (simp add: is_dir_def node_at_append_new)
    from Cons.IH [OF m w this] show ?thesis .
  next
    case (Some n)
    with Cons.prems have m: "mkdirs fs (made @ [c]) cs = Inr fs'" and "n = Directory"
      by (cases n; simp)+
    with Some have "is_dir fs (made @ [c])" by (simp add: is_dir_def)
    from Cons.IH [OF m Cons.prems(2) this] show ?thesis .
  qed
qed

lemma wf_mkdir_parents: "mkdir_parents fs p = Inr fs' \<Longrightarrow> wf_fs fs \<Longrightarrow> wf_fs fs'"
  unfolding mkdir_parents_def by (erule wf_mkdirs) (simp_all add: is_dir_def node_at_def)

lemma is_dir_write:
  assumes "write_node fs p n = Inr fs'" and "n \<noteq> Directory"
  shows "is_dir fs' q = is_dir fs q"
proof -
  from write_node_Inr [OF assms(1)] have fs': "fs' = AList.update p n fs" and p: "p \<noteq> []" by simp_all
  from assms(1) have "\<not> is_dir fs p" by (auto simp: write_node_def split: if_splits)
  with assms(2) show ?thesis by (auto simp: fs' is_dir_def node_at_update [OF p])
qed

lemma wf_write_node:
  assumes "write_node fs p n = Inr fs'" and "n \<noteq> Directory" and "wf_fs fs"
  shows "wf_fs fs'"
proof -
  from write_node_Inr [OF assms(1)] have fs': "fs' = AList.update p n fs" and p: "p \<noteq> []" by simp_all
  from assms(1) have par: "is_dir fs (butlast p)" by (auto simp: write_node_def split: if_splits)
  have "distinct (map fst fs')" using assms(3) by (simp add: fs' wf_fs_def distinct_update)
  moreover have "fst ` set fs' = insert p (fst ` set fs)" by (simp add: fs' dom_update)
  ultimately show ?thesis
    using assms(3) p par by (auto simp: wf_fs_def is_dir_write [OF assms(1,2)])
qed

lemma config_set_wf:
  assumes "config_set env d c k v fs = Inr (c', fs')" and "wf_fs fs"
  shows "wf_fs fs'" and "is_dir fs q \<Longrightarrow> is_dir fs' q"
proof -
  from assms(1) obtain fs1 where m: "mkdir_parents fs d = Inr fs1"
    and w: "write_node fs1 (config_path env d) (ConfigFile (AList.update k v c)) = Inr fs'"
    by (rule config_set_Inr)
  from wf_write_node [OF w _ wf_mkdir_parents [OF m assms(2)]] show "wf_fs fs'" by simp
  show "is_dir fs' q" if "is_dir fs q"
    using that mkdirs_keeps [OF m [unfolded mkdir_parents_def], of q] is_dir_write [OF w, of q]
    by (simp add: is_dir_def)
qed

lemma set_description_step_wf:
  assumes "set_description_step env inp d (c, fs) = Inr (c', fs')" and "wf_fs fs"
  shows "wf_fs fs'" and "is_dir fs q \<Longrightarrow> is_dir fs' q"
  using assms config_set_wf [of env d c "''description''" _ fs c' fs']
  by (auto simp: set_description_step_def split: option.splits)

lemma set_parameters_step_wf:
  assumes "set_parameters_step env inp d (c, fs) = Inr (c', fs')" and "wf_fs fs"
  shows "wf_fs fs'" and "is_dir fs q \<Longrightarrow> is_dir fs' q"
  using assms config_set_wf [of env d c "''parameters''" _ fs c' fs']
  by (auto simp: set_parameters_step_def split: if_splits sum.splits)


lemma map_of_rekey:
  "f x = y \<Longrightarrow> \<forall>k \<in> fst ` set xs. f k = y \<longrightarrow> k = x \<Longrightarrow>
   map_of (map (\<lambda>(k, v). (f k, v)) xs) y = map_of xs x"
  by (induction xs) auto

lemma map_of_rekey_None:
  "\<forall>k \<in> fst ` set xs. f k \<noteq> y \<Longrightarrow> map_of (map (\<lambda>(k, v). (f k, v)) xs) y = None"
  by (induction xs) auto

lemma append_eq_prefix: "xs @ a = ys @ b \<Longrightarrow> prefix xs ys \<or> prefix ys xs"
  by (metis prefixI prefix_same_cases)

lemma renamed_new:
  assumes "\<forall>k \<in> fst ` set fs. \<not> prefix dst k"
  shows "map_of (map (\<lambda>(p, n). (if prefix src p then dst @ drop (length src) p else p, n)) fs)
           (dst @ r) = map_of fs (src @ r)"
proof (rule map_of_rekey)
  show "(if prefix src (src @ r) then dst @ drop (length src) (src @ r) else src @ r) = dst @ r"
    by simp
  show "\<forall>k\<in>fst ` set fs.
       (if prefix src k then dst @ drop (length src) k else k) = dst @ r \<longrightarrow> k = src @ r"
  proof (intro ballI impI)
    fix k assume k: "k \<in> fst ` set fs"
      and e: "(if prefix src k then dst @ drop (length src) k else k) = dst @ r"
    show "k = src @ r"
    proof (cases "prefix src k")
      case True
      then obtain s where "k = src @ s" by (auto elim: prefixE)
      with e show ?thesis by simp
    next
      case False
      with e have "prefix dst k" by simp
      with assms k show ?thesis by blast
    qed
  qed
qed

lemma renamed_old:
  assumes "\<not> prefix src dst" and "\<not> prefix dst src"
  shows "map_of (map (\<lambda>(p, n). (if prefix src p then dst @ drop (length src) p else p, n)) fs)
           (src @ r) = None"
proof (rule map_of_rekey_None, intro ballI)
  fix k assume "k \<in> fst ` set fs"
  show "(if prefix src k then dst @ drop (length src) k else k) \<noteq> src @ r"
  proof (cases "prefix src k")
    case True
    show ?thesis
    proof
      assume "(if prefix src k then dst @ drop (length src) k else k) = src @ r"
      with True have "dst @ drop (length src) k = src @ r" by simp
      from append_eq_prefix [OF this] assms show False by blast
    qed
  next
    case False
    then show ?thesis by auto
  qed
qed

lemma rename_tree_moves:
  assumes wf: "wf_fs fs" and src: "is_dir fs src"
      and dst: "\<not> path_exists fs dst" and ns: "\<not> prefix src dst"
      and mk: "mkdir_parents fs (butlast dst) = Inr fs1"
  shows "\<exists>fs'. rename_tree fs src dst = Inr fs' \<and>
           (\<forall>r. node_at fs' (dst @ r) = node_at fs (src @ r)) \<and>
           (\<forall>r. node_at fs' (src @ r) = None)"
proof -
  let ?f = "\<lambda>(p, n). (if prefix src p then dst @ drop (length src) p else p, n)"
  from dst have dne: "dst \<noteq> []" by (auto simp: path_exists_def node_at_def)
  from ns have sne: "src \<noteq> []" by auto
  have nd: "\<not> prefix dst src"
  proof
    assume "prefix dst src"
    then obtain s where s: "src = dst @ s" by (auto elim: prefixE)
    from src have "path_exists fs (dst @ s)" unfolding s by (rule is_dir_exists)
    with wf_nothing_below [OF wf dst] show False by simp
  qed
  have r: "rename_tree fs src dst = Inr (map ?f fs1)"
    using dst ns mk by (simp add: rename_tree_def)
  have same: "node_at fs1 (src @ r) = node_at fs (src @ r)" for r
  proof (rule ccontr)
    assume "node_at fs1 (src @ r) \<noteq> node_at fs (src @ r)"
    from mkdirs_new [OF mk [unfolded mkdir_parents_def] this]
    have "prefix (src @ r) (butlast dst)" by simp
    then have "prefix src dst"
      by (metis append_prefixD prefix_order.trans prefixeq_butlast)
    with ns show False by simp
  qed
  have below: "\<forall>k \<in> fst ` set fs1. \<not> prefix dst k"
  proof (intro ballI notI)
    fix k assume k: "k \<in> fst ` set fs1" and p: "prefix dst k"
    from p obtain s where s: "k = dst @ s" by (auto elim: prefixE)
    from k have kne: "node_at fs1 k \<noteq> None"
      by (cases "k = []") (simp_all add: node_at_def map_of_eq_None_iff)
    have "node_at fs k = None"
      using wf_nothing_below [OF wf dst, of s] by (simp add: s path_exists_def)
    with kne have "node_at fs1 k \<noteq> node_at fs k" by simp
    from mkdirs_new [OF mk [unfolded mkdir_parents_def] this]
    have "prefix k (butlast dst)" by simp
    then have "length k \<le> length (butlast dst)" by (rule prefix_length_le)
    then have "length k \<le> length dst - 1" by simp
    moreover have "length dst \<le> length k" by (simp add: s)
    moreover have "length dst \<noteq> 0" using dne by simp
    ultimately show False by arith
  qed
  have new: "node_at (map ?f fs1) (dst @ r) = node_at fs (src @ r)" for r
    using renamed_new [OF below, of src r] same [of r] dne sne by (simp add: node_at_def)
  have old: "node_at (map ?f fs1) (src @ r) = None" for r
    using renamed_old [OF ns nd, of fs1 r] sne by (simp add: node_at_def)
  from r new old show ?thesis by blast
qed

lemma path_join_relative: "s = [] \<or> hd s \<noteq> CHR ''/'' \<Longrightarrow> path_join root s = root @ parts s"
  by (cases s) (simp_all add: path_join_def parts_def)

lemma lstrip_slash_hd: "lstrip_slash n = [] \<or> hd (lstrip_slash n) \<noteq> CHR ''/''"
  unfolding lstrip_slash_def using hd_dropWhile [of "\<lambda>c. c = CHR ''/''" n] by blast

lemma path_join_stripped: "path_join root (lstrip_slash n) = root @ parts (lstrip_slash n)"
  by (rule path_join_relative) (rule lstrip_slash_hd)


subsection \<open>The rename of a project\<close>






lemma example_root_wf: "wf_fs example_root"
  by code_simp



subsection \<open>Parameters: set, then read\<close>

lemma projects_update_Inr:
  assumes "projects_update env inp fs = (Inr (), fs')"
  obtains pid i project_dir where "getitem inp ''projectId'' = Inr pid" "py_int pid = Inr i"
    "find_project_by_id env fs i = Inr project_dir"
    "update_in_order env inp project_dir fs = (Inr (), fs')"
proof (cases "getitem inp ''projectId''")
  case (Inl e)
  with assms show thesis by (simp add: projects_update_def)
next
  case pid: (Inr pid)
  show thesis
  proof (cases "py_int pid")
    case (Inl e)
    with pid assms show thesis by (simp add: projects_update_def)
  next
    case i: (Inr i)
    show thesis
    proof (cases "find_project_by_id env fs i")
      case (Inl e)
      with pid i assms show thesis by (simp add: projects_update_def)
    next
      case (Inr project_dir)
      from projects_update_in_order [OF pid i Inr] assms that [OF pid i Inr] show thesis by simp
    qed
  qed
qed

lemma update_in_order_Inr:
  assumes "update_in_order env inp d fs = (Inr (), fs')"
  obtains c1 fs1 c2 fs2 where
    "set_description_step env inp d (get_project_config env fs d, fs) = Inr (c1, fs1)"
    "set_parameters_step env inp d (c1, fs1) = Inr (c2, fs2)"
    "rename_step env inp d fs2 = Inr fs'"
proof (cases "set_description_step env inp d (get_project_config env fs d, fs)")
  case (Inl e)
  with assms show thesis by (simp add: update_in_order_def)
next
  case 1: (Inr cf1)
  obtain c1 fs1 where cf1: "cf1 = (c1, fs1)" by (cases cf1)
  show thesis
  proof (cases "set_parameters_step env inp d (c1, fs1)")
    case (Inl e)
    with 1 cf1 assms show thesis by (simp add: update_in_order_def)
  next
    case 2: (Inr cf2)
    obtain c2 fs2 where cf2: "cf2 = (c2, fs2)" by (cases cf2)
    show thesis
    proof (cases "rename_step env inp d fs2")
      case (Inl e)
      with 1 2 cf1 cf2 assms show thesis by (simp add: update_in_order_def)
    next
      case (Inr fs3)
      with 1 2 cf1 cf2 assms have "fs3 = fs'" by (simp add: update_in_order_def)
      with that [of c1 fs1 c2 fs2] 1 2 cf1 cf2 Inr show thesis by simp
    qed
  qed
qed

lemma mkdirs_existing:
  "wf_fs fs \<Longrightarrow> is_dir fs (made @ cs) \<Longrightarrow> mkdirs fs made cs = Inr fs"
proof (induction cs arbitrary: made)
  case Nil
  then show ?case by simp
next
  case (Cons c cs)
  have "is_dir fs (made @ [c])"
  proof (cases "cs = []")
    case True
    with Cons.prems show ?thesis by simp
  next
    case False
    from wf_ancestor [OF Cons.prems(1) is_dir_exists, of "made @ [c]" cs] Cons.prems(2) False
    show ?thesis by simp
  qed
  moreover from Cons.IH [of "made @ [c]"] Cons.prems have "mkdirs fs (made @ [c]) cs = Inr fs"
    by simp
  ultimately show ?case by (simp add: is_dir_def)
qed

lemma project_dirs_config_listed:
  "d \<in> set (project_dirs env fs) \<Longrightarrow> config_path env d \<in> fst ` set fs"
proof -
  assume "d \<in> set (project_dirs env fs)"
  then obtain p where p: "p \<in> fst ` set fs" "prefix (cli_root env) p" "p \<noteq> cli_root env"
    "last p = config_file_name env" "d = butlast p"
    by (auto simp: project_dirs_def rglob_def)
  from p(2,3) have "p \<noteq> []" by auto
  with p have "config_path env d = p"
    using append_butlast_last_id [of p] by (simp add: config_path_def)
  with p show ?thesis by simp
qed

lemma config_set_tracked:
  assumes s: "config_set env d c k v fs = Inr (c', fs')" and wf: "wf_fs fs"
      and d: "d \<in> set (project_dirs env fs)"
  shows "map fst fs' = map fst fs"
    and "d' \<noteq> d \<Longrightarrow> get_project_config env fs' d' = get_project_config env fs d'"
proof -
  from d obtain p where "p \<in> fst ` set fs" "d = butlast p"
    by (auto simp: project_dirs_def rglob_def)
  with wf have dir: "is_dir fs d" by (auto simp: wf_fs_def)
  from mkdirs_existing [OF wf, of "[]" d] dir have m: "mkdir_parents fs d = Inr fs"
    by (simp add: mkdir_parents_def)
  from s obtain fs1 where "mkdir_parents fs d = Inr fs1"
    and w: "write_node fs1 (config_path env d) (ConfigFile (AList.update k v c)) = Inr fs'"
    by (rule config_set_Inr)
  with m have fs1: "fs1 = fs" by simp
  from write_node_Inr [OF w] have fs': "fs' = AList.update (config_path env d) (ConfigFile (AList.update k v c)) fs"
    by (simp add: fs1)
  from project_dirs_config_listed [OF d] show "map fst fs' = map fst fs"
    by (simp add: fs' update_keys)
  show "get_project_config env fs' d' = get_project_config env fs d'" if "d' \<noteq> d"
    using that by (simp add: get_project_config_def fs' node_at_update config_path_nonempty config_path_def)
qed

lemma project_dirs_cong: "map fst fs' = map fst fs \<Longrightarrow> project_dirs env fs' = project_dirs env fs"
  by (simp add: project_dirs_def rglob_def)

lemma find_project_in_dirs:
  "find_project_by_id env fs i = Inr d \<Longrightarrow> d \<in> set (project_dirs env fs)"
  by (auto simp: find_project_by_id_def split: list.splits dest: filter_eq_ConsD)

lemma find_project_cong:
  assumes "project_dirs env fs' = project_dirs env fs"
      and "\<And>d. d \<in> set (project_dirs env fs) \<Longrightarrow>
             map_of (get_project_config env fs' d) local_id_key =
             map_of (get_project_config env fs d) local_id_key"
  shows "find_project_by_id env fs' i = find_project_by_id env fs i"
proof -
  have "filter (\<lambda>d. map_of (get_project_config env fs' d) local_id_key = Some (JInt i))
          (project_dirs env fs) =
        filter (\<lambda>d. map_of (get_project_config env fs d) local_id_key = Some (JInt i))
          (project_dirs env fs)"
    by (rule filter_cong) (simp_all add: assms(2))
  then show ?thesis by (simp add: find_project_by_id_def assms(1))
qed

lemma config_set_find:
  assumes s: "config_set env d (get_project_config env fs d) k v fs = Inr (c', fs')"
      and wf: "wf_fs fs" and d: "d \<in> set (project_dirs env fs)" and k: "k \<noteq> local_id_key"
  shows "find_project_by_id env fs' i = find_project_by_id env fs i"
proof (rule find_project_cong)
  show "project_dirs env fs' = project_dirs env fs"
    by (rule project_dirs_cong) (rule config_set_tracked(1) [OF s wf d])
  fix d' assume "d' \<in> set (project_dirs env fs)"
  show "map_of (get_project_config env fs' d') local_id_key =
        map_of (get_project_config env fs d') local_id_key"
  proof (cases "d' = d")
    case True
    with config_set_config(2) [OF s] k show ?thesis by (simp add: update_conv')
  next
    case False
    with config_set_tracked(2) [OF s wf d] show ?thesis by simp
  qed
qed

lemma set_description_step_tracked:
  assumes s: "set_description_step env inp d (get_project_config env fs d, fs) = Inr (c1, fs1)"
      and wf: "wf_fs fs" and d: "d \<in> set (project_dirs env fs)"
  shows "c1 = get_project_config env fs1 d"
    and "project_dirs env fs1 = project_dirs env fs"
    and "find_project_by_id env fs1 i = find_project_by_id env fs i"
proof -
  show "c1 = get_project_config env fs1 d"
    using s config_set_config [of env d "get_project_config env fs d" "''description''" _ fs c1 fs1]
    by (auto simp: set_description_step_def split: option.splits)
  show "project_dirs env fs1 = project_dirs env fs"
    using s config_set_tracked(1) [OF _ wf d,
        of "get_project_config env fs d" "''description''" _ c1 fs1]
    by (auto simp: set_description_step_def intro: project_dirs_cong split: option.splits)
  show "find_project_by_id env fs1 i = find_project_by_id env fs i"
    using s config_set_find [OF _ wf d, of "''description''" _ c1 fs1 i]
    by (auto simp: set_description_step_def local_id_key_def split: option.splits)
qed

lemma set_parameters_step_tracked:
  assumes s: "set_parameters_step env inp d (get_project_config env fs d, fs) = Inr (c2, fs2)"
      and wf: "wf_fs fs" and d: "d \<in> set (project_dirs env fs)"
  shows "find_project_by_id env fs2 i = find_project_by_id env fs i"
    and "has_key inp ''parameters'' \<Longrightarrow>
           map_of (get_project_config env fs2 d) ''parameters'' = Some (JObj [])"
    and "\<not> has_key inp ''parameters'' \<Longrightarrow> has_key inp (param_key 0) \<Longrightarrow>
           \<exists>ps. parameters_loop inp 0 [] = Inr ps \<and>
              map_of (get_project_config env fs2 d) ''parameters'' = Some (JObj ps)"
proof -
  let ?c = "get_project_config env fs d"
  show "find_project_by_id env fs2 i = find_project_by_id env fs i"
    using s config_set_find [OF _ wf d, of "''parameters''" _ c2 fs2 i]
    by (auto simp: set_parameters_step_def local_id_key_def split: if_splits sum.splits)
  show "map_of (get_project_config env fs2 d) ''parameters'' = Some (JObj [])"
    if "has_key inp ''parameters''"
  proof -
    from s that have "config_set env d ?c ''parameters'' (JObj []) fs = Inr (c2, fs2)"
      by (simp add: set_parameters_step_def)
    from config_set_config(2) [OF this] show ?thesis by (simp add: update_conv')
  qed
  show "\<exists>ps. parameters_loop inp 0 [] = Inr ps \<and>
              map_of (get_project_config env fs2 d) ''parameters'' = Some (JObj ps)"
    if "\<not> has_key inp ''parameters''" and "has_key inp (param_key 0)"
  proof (cases "parameters_loop inp 0 []")
    case (Inl e)
    with s that show ?thesis by (simp add: set_parameters_step_def)
  next
    case (Inr ps)
    with s that have "config_set env d ?c ''parameters'' (JObj ps) fs = Inr (c2, fs2)"
      by (simp add: set_parameters_step_def)
    from config_set_config(2) [OF this] Inr show ?thesis by (simp add: update_conv')
  qed
qed

lemma parameters_loop_pairs:
  assumes "indexed_pairs inp kvs" and "j \<le> length kvs"
  shows "parameters_loop inp j acc = Inr (dict_of_pairs (drop j kvs) acc)"
  using assms(2)
proof (induction "length kvs - j" arbitrary: j acc)
  case 0
  then have j: "j = length kvs" by simp
  with assms(1) show ?case
    by (subst parameters_loop.simps) (simp add: indexed_pairs_def dict_of_pairs_def)
next
  case (Suc n)
  then have j: "j < length kvs" by simp
  with assms(1) have k: "map_of inp (param_key j) = Some (fst (kvs ! j))"
    and v: "map_of inp (param_value j) = Some (snd (kvs ! j))"
    by (simp_all add: indexed_pairs_def)
  from k have h: "has_key inp (param_key j)"
    by (auto simp: has_key_def dest: map_of_SomeD intro: rev_image_eqI)
  from Suc(2) j have "n = length kvs - Suc j" by simp
  from Suc(1) [OF this, of "AList.update (fst (kvs ! j)) (JStr (snd (kvs ! j))) acc"] j
  have "parameters_loop inp (Suc j) (AList.update (fst (kvs ! j)) (JStr (snd (kvs ! j))) acc) =
        Inr (dict_of_pairs (drop (Suc j) kvs)
               (AList.update (fst (kvs ! j)) (JStr (snd (kvs ! j))) acc))"
    by simp
  moreover have "drop j kvs = kvs ! j # drop (Suc j) kvs"
    using j by (simp add: Cons_nth_drop_Suc)
  ultimately show ?case
    using h k v
    by (subst parameters_loop.simps) (simp add: getitem_def dict_of_pairs_def case_prod_beta)
qed

lemma map_of_dict_of_pairs:
  "map_of (dict_of_pairs kvs d) = map_of d ++ map_of (rev (map (\<lambda>(k, v). (k, JStr v)) kvs))"
proof (induction kvs arbitrary: d)
  case Nil
  then show ?case by (simp add: dict_of_pairs_def)
next
  case (Cons kv kvs)
  obtain k v where kv: "kv = (k, v)" by (cases kv)
  have "dict_of_pairs (kv # kvs) d = dict_of_pairs kvs (AList.update k (JStr v) d)"
    by (simp add: dict_of_pairs_def kv)
  with Cons [of "AList.update k (JStr v) d"] show ?case
    by (simp add: kv update_conv' map_add_upd_left map_add_def fun_eq_iff split: option.splits)
qed

lemma distinct_dict_of_pairs:
  "distinct (map fst d) \<Longrightarrow> distinct (map fst (dict_of_pairs kvs d))"
  unfolding dict_of_pairs_def
  by (induction kvs arbitrary: d) (auto simp: distinct_update)

lemma create_projects_single:
  assumes "create_projects env [d] fs = (Inr ps, fs')"
  obtains p where "ps = [p]" "create_project env d fs = (Inr p, fs')"
proof (cases "create_project env d fs")
  case (Pair r fs1)
  show thesis
  proof (cases r)
    case (Inl e)
    with Pair assms show thesis by simp
  next
    case (Inr p)
    with Pair assms that [of p] show thesis by auto
  qed
qed

lemma read_parameters:
  assumes "create_project env d fs = (Inr p, fs')"
      and "map_of (get_project_config env fs d) ''parameters'' = Some (JObj kvs)"
  shows "map (\<lambda>q. (qc_key q, qc_value q)) (parameters p) = kvs"
proof -
  from assms(1) obtain i where g: "get_local_id env d fs = (Inr i, fs')"
    and it: "items (config_get (get_project_config env fs' d) ''parameters'' (JObj [])) =
               Inr (map (\<lambda>q. (qc_key q, qc_value q)) (parameters p))"
    by (rule create_project_Inr)
  from get_local_id_other_key [OF g, of "''parameters''"] assms(2)
  have "map_of (get_project_config env fs' d) ''parameters'' = Some (JObj kvs)"
    by (simp add: local_id_key_def)
  with it show ?thesis by (simp add: config_get_def)
qed

lemma example_set:
  "projects_update example_ps_env example_set_parameters example_root =
     (Inr (), example_root_updated)"
  by code_simp

lemma example_read_set:
  "projects_read example_ps_env [(''projectId'', ''1'')] example_root_updated =
     (Inr [example_project\<lparr>description := JStr ''momentum'',
             parameters := [\<lparr>qc_key = ''a'', qc_value = JStr ''1''\<rparr>,
                            \<lparr>qc_key = ''b'', qc_value = JStr ''2''\<rparr>]\<rparr>],
      example_root_updated)"
  by code_simp

lemma example_clear:
  "projects_update example_ps_env [(''projectId'', ''1''), (''parameters'', '''')]
     example_root_updated = (Inr (), example_root_cleared)"
  by code_simp

lemma example_read_cleared:
  "projects_read example_ps_env [(''projectId'', ''1'')] example_root_cleared =
     (Inr [example_project\<lparr>description := JStr ''momentum''\<rparr>], example_root_cleared)"
  by code_simp

lemma example_root_updated_wf: "wf_fs example_root_updated"
  by code_simp

lemma example_indexed_pairs:
  "indexed_pairs example_set_parameters [(''a'', ''1''), (''b'', ''2'')]"
proof -
  have k: "param_key 0 = ''parameters[0][key]''" "param_key (Suc 0) = ''parameters[1][key]''"
    "param_key 2 = ''parameters[2][key]''" "param_value 0 = ''parameters[0][value]''"
    "param_value (Suc 0) = ''parameters[1][value]''"
    by (simp_all add: param_key_def param_value_def str_nat.simps digit_def)
  have "map_of example_set_parameters (param_key i) = Some (fst ([(''a'', ''1''), (''b'', ''2'')] ! i)) \<and>
        map_of example_set_parameters (param_value i) = Some (snd ([(''a'', ''1''), (''b'', ''2'')] ! i))"
    if "i < 2" for i
  proof -
    from that consider "i = 0" | "i = 1" by arith
    then show ?thesis
      by cases (simp_all add: k example_set_parameters_def)
  qed
  moreover have "\<not> has_key example_set_parameters (param_key 2)"
    by (simp add: k has_key_def example_set_parameters_def)
  moreover have "length [(''a'', ''1''), (''b'', ''2'')] = (2::nat)" by simp
  ultimately show ?thesis unfolding indexed_pairs_def by metis
qed


text \<open>The project of an id after a rename.\<close>

lemma stored_id_sidecar:
  assumes "prefix (cli_root env) k" "k \<noteq> cli_root env" "last k = config_file_name env"
  shows "(map_of (get_project_config env fs (butlast k)) local_id_key = Some (JInt i)) =
         sidecar_of_id env fs i k"
proof -
  from assms(1,2) have "k \<noteq> []" by auto
  with assms(3) have "config_path env (butlast k) = k"
    using append_butlast_last_id [of k] by (simp add: config_path_def)
  then show ?thesis
    using assms
    by (auto simp: get_project_config_def sidecar_of_id_def split: option.splits node.splits)
qed

lemma find_project_by_sidecar:
  "find_project_by_id env fs i =
     (case filter (sidecar_of_id env fs i) (map fst fs) of
        [] \<Rightarrow> Inl (not_found i)
      | k # _ \<Rightarrow> Inr (butlast k))"
proof -
  let ?P = "\<lambda>k. prefix (cli_root env) k \<and> k \<noteq> cli_root env \<and> last k = config_file_name env"
  let ?Q = "\<lambda>d. map_of (get_project_config env fs d) local_id_key = Some (JInt i)"
  have "filter ?Q (project_dirs env fs) = map butlast (filter (?Q \<circ> butlast) (filter ?P (map fst fs)))"
    by (simp add: project_dirs_def rglob_def filter_map)
  also have "filter (?Q \<circ> butlast) (filter ?P (map fst fs)) =
             filter (\<lambda>k. ?P k \<and> ?Q (butlast k)) (map fst fs)"
    by (simp add: conj_commute)
  also have "\<dots> = filter (sidecar_of_id env fs i) (map fst fs)"
  proof (rule filter_cong [OF refl])
    fix k
    show "(?P k \<and> ?Q (butlast k)) = sidecar_of_id env fs i k"
    proof (cases "?P k")
      case True
      with stored_id_sidecar [of env k fs i] show ?thesis by simp
    next
      case False
      then show ?thesis by (auto simp: sidecar_of_id_def)
    qed
  qed
  finally have "filter ?Q (project_dirs env fs) =
      map butlast (filter (sidecar_of_id env fs i) (map fst fs))" .
  then show ?thesis
    by (simp add: find_project_by_id_def split: list.splits)
qed

lemma mkdirs_appends:
  "mkdirs fs made cs = Inr fs' \<Longrightarrow> \<exists>nd. fs' = fs @ nd \<and> snd ` set nd \<subseteq> {Directory}"
proof (induction cs arbitrary: fs made)
  case Nil
  then show ?case by simp
next
  case (Cons c cs)
  show ?case
  proof (cases "node_at fs (made @ [c])")
    case None
    with Cons.prems have "mkdirs (fs @ [(made @ [c], Directory)]) (made @ [c]) cs = Inr fs'"
      by simp
    from Cons.IH [OF this] obtain nd where
      "fs' = (fs @ [(made @ [c], Directory)]) @ nd" "snd ` set nd \<subseteq> {Directory}" by blast
    then have "fs' = fs @ ((made @ [c], Directory) # nd) \<and>
               snd ` set ((made @ [c], Directory) # nd) \<subseteq> {Directory}" by simp
    then show ?thesis by blast
  next
    case (Some n)
    with Cons.prems have "mkdirs fs (made @ [c]) cs = Inr fs'"
      by (cases n) simp_all
    from Cons.IH [OF this] show ?thesis .
  qed
qed

lemma sidecars_after_mkdirs:
  assumes m: "mkdirs fs made cs = Inr fs'" and wf: "wf_fs fs'"
  shows "filter (sidecar_of_id env fs' i) (map fst fs') =
         filter (sidecar_of_id env fs i) (map fst fs)"
proof -
  from mkdirs_appends [OF m] obtain nd where fs': "fs' = fs @ nd"
    and nd: "snd ` set nd \<subseteq> {Directory}" by blast
  from wf have dist: "distinct (map fst fs')" by (simp add: wf_fs_def)
  have new: "\<not> sidecar_of_id env fs' i k" if "k \<in> fst ` set nd" for k
  proof -
    from that obtain n where kn: "(k, n) \<in> set nd" by auto
    with nd have n: "n = Directory" by auto
    from kn have "(k, n) \<in> set fs'" by (simp add: fs')
    with dist have "map_of fs' k = Some n" by (simp add: map_of_eq_Some_iff)
    with n have "node_at fs' k = Some Directory" by (simp add: node_at_def)
    then show ?thesis by (simp add: sidecar_of_id_def)
  qed
  have old: "sidecar_of_id env fs' i k = sidecar_of_id env fs i k" if "k \<in> fst ` set fs" for k
  proof -
    from that have "k = [] \<or> map_of fs k \<noteq> None" by (simp add: map_of_eq_None_iff)
    then have "node_at fs k \<noteq> None" by (auto simp: node_at_def)
    from mkdirs_keeps [OF m this] show ?thesis by (simp add: sidecar_of_id_def)
  qed
  have "filter (sidecar_of_id env fs' i) (map fst nd) = []"
    using new by (auto simp: filter_empty_conv)
  moreover have "filter (sidecar_of_id env fs' i) (map fst fs) =
                 filter (sidecar_of_id env fs i) (map fst fs)"
    by (rule filter_cong) (simp_all add: old)
  ultimately show ?thesis by (simp add: fs')
qed

lemma rename_tree_Inr:
  assumes "rename_tree fs src dst = Inr fs3"
  obtains fs1 where "\<not> path_exists fs dst" "\<not> prefix src dst"
    "mkdir_parents fs (butlast dst) = Inr fs1"
    "fs3 = map (\<lambda>(p, n). (if prefix src p then dst @ drop (length src) p else p, n)) fs1"
proof (cases "mkdir_parents fs (butlast dst)")
  case (Inl e)
  with assms show thesis by (simp add: rename_tree_def split: if_splits)
next
  case (Inr fs1)
  with assms that [of fs1] show thesis by (simp add: rename_tree_def split: if_splits)
qed

lemma nothing_below_after_mkdir:
  assumes wf: "wf_fs fs" and dst: "\<not> path_exists fs dst"
      and mk: "mkdir_parents fs (butlast dst) = Inr fs1"
  shows "\<forall>k \<in> fst ` set fs1. \<not> prefix dst k"
proof (intro ballI notI)
  fix k assume k: "k \<in> fst ` set fs1" and p: "prefix dst k"
  from dst have dne: "dst \<noteq> []" by (auto simp: path_exists_def node_at_def)
  from p obtain s where s: "k = dst @ s" by (auto elim: prefixE)
  from k have kne: "node_at fs1 k \<noteq> None"
    by (cases "k = []") (simp_all add: node_at_def map_of_eq_None_iff)
  have "node_at fs k = None"
    using wf_nothing_below [OF wf dst, of s] by (simp add: s path_exists_def)
  with kne have "node_at fs1 k \<noteq> node_at fs k" by simp
  from mkdirs_new [OF mk [unfolded mkdir_parents_def] this]
  have "prefix k (butlast dst)" by simp
  then have "length k \<le> length (butlast dst)" by (rule prefix_length_le)
  then have "length k \<le> length dst - 1" by simp
  moreover have "length dst \<le> length k" by (simp add: s)
  moreover have "length dst \<noteq> 0" using dne by simp
  ultimately show False by arith
qed

lemma renamed_key:
  assumes below: "\<forall>k \<in> fst ` set fs1. \<not> prefix dst k" and k: "k \<in> fst ` set fs1"
      and kne: "k \<noteq> []" and dne: "dst \<noteq> []"
  shows "node_at (map (\<lambda>(p, n). (if prefix src p then dst @ drop (length src) p else p, n)) fs1)
           (if prefix src k then dst @ drop (length src) k else k) = node_at fs1 k"
proof -
  let ?f = "\<lambda>p. if prefix src p then dst @ drop (length src) p else p"
  have "map_of (map (\<lambda>(p, n). (?f p, n)) fs1) (?f k) = map_of fs1 k"
  proof (rule map_of_rekey [OF refl], intro ballI impI)
    fix k' assume k': "k' \<in> fst ` set fs1" and e: "?f k' = ?f k"
    show "k' = k"
    proof (cases "prefix src k'")
      case True
      then obtain s' where s': "k' = src @ s'" by (auto elim: prefixE)
      show ?thesis
      proof (cases "prefix src k")
        case True
        then obtain s where "k = src @ s" by (auto elim: prefixE)
        with e s' show ?thesis by simp
      next
        case False
        with e s' have "k = dst @ s'" by simp
        then have "prefix dst k" by simp
        with below k show ?thesis by blast
      qed
    next
      case False
      show ?thesis
      proof (cases "prefix src k")
        case True
        then obtain s where "k = src @ s" by (auto elim: prefixE)
        with e False have "k' = dst @ s" by simp
        then have "prefix dst k'" by simp
        with below k' show ?thesis by blast
      next
        case nk: False
        with e False show ?thesis by simp
      qed
    qed
  qed
  moreover have "?f k \<noteq> []" using kne dne by simp
  ultimately show ?thesis using kne by (simp add: node_at_def)
qed

lemma find_after_rename:
  assumes wf: "wf_fs fs" and src: "is_dir fs src"
      and rs: "prefix (cli_root env) src" and rd: "prefix (cli_root env) dst"
      and r: "rename_tree fs src dst = Inr fs3"
      and f: "find_project_by_id env fs i = Inr src"
  shows "find_project_by_id env fs3 i = Inr dst"
proof -
  let ?f = "\<lambda>p. if prefix src p then dst @ drop (length src) p else p"
  from r obtain fs1 where dst: "\<not> path_exists fs dst" and ns: "\<not> prefix src dst"
    and mk: "mkdir_parents fs (butlast dst) = Inr fs1"
    and fs3: "fs3 = map (\<lambda>(p, n). (?f p, n)) fs1"
    by (rule rename_tree_Inr)
  from dst have dne: "dst \<noteq> []" by (auto simp: path_exists_def node_at_def)
  have wf1: "wf_fs fs1" by (rule wf_mkdir_parents [OF mk wf])
  note below = nothing_below_after_mkdir [OF wf dst mk]
  have sroot: "src \<noteq> cli_root env" using ns rd by auto
  have droot: "dst \<noteq> cli_root env"
  proof
    assume "dst = cli_root env"
    with rs obtain s where "src = dst @ s" by (auto elim: prefixE)
    with src wf_nothing_below [OF wf dst, of s] show False by (auto dest: is_dir_exists)
  qed
  have longer: "length r < length p" if "prefix r p" "p \<noteq> r" for r p :: path
  proof -
    from that(1) obtain s where "p = r @ s" by (auto elim: prefixE)
    with that(2) show ?thesis by (cases s) simp_all
  qed
  have lr: "length (cli_root env) < length src" "length (cli_root env) < length dst"
    by (rule longer [OF rs sroot], rule longer [OF rd droot])
  have same: "sidecar_of_id env fs3 i (?f k) = sidecar_of_id env fs1 i k"
    if k: "k \<in> fst ` set fs1" for k
  proof -
    from wf1 k have kne: "k \<noteq> []" by (auto simp: wf_fs_def)
    have node: "node_at fs3 (?f k) = node_at fs1 k"
      unfolding fs3 by (rule renamed_key [OF below k kne dne])
    show ?thesis
    proof (cases "prefix src k")
      case False
      with node show ?thesis by (simp add: sidecar_of_id_def)
    next
      case True
      then obtain s where s: "k = src @ s" by (auto elim: prefixE)
      show ?thesis
      proof (cases "s = []")
        case True
        from src have "node_at fs src \<noteq> None" by (simp add: is_dir_def)
        from mkdirs_keeps [OF mk [unfolded mkdir_parents_def] this] src
        have "node_at fs1 k = Some Directory" by (simp add: s True is_dir_def)
        with node show ?thesis by (simp add: sidecar_of_id_def)
      next
        case False
        have pre: "prefix (cli_root env) (src @ s)" "prefix (cli_root env) (dst @ s)"
          using rs rd by (auto intro: prefix_order.trans)
        have ne: "src @ s \<noteq> cli_root env" "dst @ s \<noteq> cli_root env"
        proof -
          show "src @ s \<noteq> cli_root env"
          proof
            assume "src @ s = cli_root env"
            then have "length (cli_root env) = length src + length s" by (metis length_append)
            with lr show False by simp
          qed
          show "dst @ s \<noteq> cli_root env"
          proof
            assume "dst @ s = cli_root env"
            then have "length (cli_root env) = length dst + length s" by (metis length_append)
            with lr show False by simp
          qed
        qed
        show ?thesis
          using node False pre ne by (simp add: sidecar_of_id_def s)
      qed
    qed
  qed
  have "filter (sidecar_of_id env fs3 i) (map fst fs3) =
        map ?f (filter (sidecar_of_id env fs3 i \<circ> ?f) (map fst fs1))"
    by (simp add: fs3 filter_map comp_def case_prod_beta)
  also have "filter (sidecar_of_id env fs3 i \<circ> ?f) (map fst fs1) =
             filter (sidecar_of_id env fs1 i) (map fst fs1)"
    by (rule filter_cong) (simp_all add: same)
  also have "\<dots> = filter (sidecar_of_id env fs i) (map fst fs)"
    by (rule sidecars_after_mkdirs [OF mk [unfolded mkdir_parents_def] wf1])
  finally have l: "filter (sidecar_of_id env fs3 i) (map fst fs3) =
                   map ?f (filter (sidecar_of_id env fs i) (map fst fs))" .
  from f obtain k0 rest where k0: "filter (sidecar_of_id env fs i) (map fst fs) = k0 # rest"
    and b: "butlast k0 = src"
    by (auto simp: find_project_by_sidecar split: list.splits)
  from k0 have "sidecar_of_id env fs i k0" by (metis filter_eq_ConsD)
  then have "last k0 = config_file_name env" "k0 \<noteq> []"
    by (auto simp: sidecar_of_id_def)
  with b have "k0 = src @ [config_file_name env]"
    using append_butlast_last_id [of k0] by simp
  then have "?f k0 = dst @ [config_file_name env]" by simp
  with l k0 show ?thesis
    by (simp add: find_project_by_sidecar [of env fs3])
qed

lemma project_dirs_below:
  assumes "d \<in> set (project_dirs env fs)"
  shows "prefix (cli_root env) d"
proof -
  from assms obtain p where p: "prefix (cli_root env) p" "p \<noteq> cli_root env" "d = butlast p"
    by (auto simp: project_dirs_def rglob_def)
  from p(1,2) have "p \<noteq> []" by auto
  then have "p = d @ [last p]" using p(3) by simp
  with p(1,2) show ?thesis by (metis prefix_snoc)
qed

lemma rename_step_Inr:
  assumes r: "rename_step env inp d fs = Inr fs'" and wf: "wf_fs fs"
      and din: "d \<in> set (project_dirs env fs)"
      and f: "find_project_by_id env fs i = Inr d"
  obtains d' where "find_project_by_id env fs' i = Inr d'"
    "get_project_config env fs' d' = get_project_config env fs d"
proof (cases "map_of inp ''name''")
  case None
  with r have "fs' = fs" by (simp add: rename_step_def)
  with f that [of d] show thesis by simp
next
  case (Some n)
  let ?dst = "path_join (cli_root env) (lstrip_slash n)"
  from r Some have nd: "\<not> is_dir fs ?dst" and m: "shutil_move fs d ?dst = Inr fs'"
    by (auto simp: rename_step_def split: if_splits)
  from m nd have dir: "is_dir fs d" and t: "rename_tree fs d ?dst = Inr fs'"
    by (auto simp: shutil_move_def split: if_splits)
  have rd: "prefix (cli_root env) ?dst" by (simp add: path_join_stripped)
  from find_after_rename [OF wf dir project_dirs_below [OF din] rd t f]
  have 1: "find_project_by_id env fs' i = Inr ?dst" .
  from t obtain fs1 where e: "\<not> path_exists fs ?dst" and ns: "\<not> prefix d ?dst"
    and mk: "mkdir_parents fs (butlast ?dst) = Inr fs1"
    by (rule rename_tree_Inr)
  from rename_tree_moves [OF wf dir e ns mk] t
  have "node_at fs' (?dst @ [config_file_name env]) = node_at fs (d @ [config_file_name env])"
    by auto
  then have "get_project_config env fs' ?dst = get_project_config env fs d"
    by (simp add: get_project_config_def config_path_def)
  with 1 that [of ?dst] show thesis by simp
qed

text \<open>
  C4: an update request succeeds on a well-formed working root, and the project is then
  read by the same id. The read returns one record. If the request carried the
  empty-parameters signal, the record has no parameters. If it carried no such signal
  but the indexed pairs \<open>kvs\<close>, the parameters of the record are the dict built from the
  pairs: each key once, with the value of its last pair. The request may set a
  description and rename the project as well.
\<close>

theorem C4_parameters_round_trip:
  assumes wf: "wf_fs fs"
      and pid: "getitem inp ''projectId'' = Inr pid"
      and upd: "projects_update env inp fs = (Inr (), fs')"
      and rd: "projects_read env [(''projectId'', pid)] fs' = (Inr ps, fs'')"
  shows "\<exists>p. ps = [p] \<and>
           (has_key inp ''parameters'' \<longrightarrow> parameters p = []) \<and>
           (\<not> has_key inp ''parameters'' \<and> kvs \<noteq> [] \<and> indexed_pairs inp kvs \<longrightarrow>
              map (\<lambda>q. (qc_key q, qc_value q)) (parameters p) = dict_of_pairs kvs [] \<and>
              distinct (map qc_key (parameters p)) \<and>
              map_of (map (\<lambda>q. (qc_key q, qc_value q)) (parameters p)) =
                map_of (rev (map (\<lambda>(k, v). (k, JStr v)) kvs)))"
proof -
  from upd pid obtain i d where i: "py_int pid = Inr i"
    and f: "find_project_by_id env fs i = Inr d"
    and o: "update_in_order env inp d fs = (Inr (), fs')"
    by (auto elim: projects_update_Inr)
  from o obtain c1 fs1 c2 fs2 where
    s1: "set_description_step env inp d (get_project_config env fs d, fs) = Inr (c1, fs1)"
    and s2: "set_parameters_step env inp d (c1, fs1) = Inr (c2, fs2)"
    and s3: "rename_step env inp d fs2 = Inr fs'"
    by (rule update_in_order_Inr)
  note din = find_project_in_dirs [OF f]
  note t1 = set_description_step_tracked [OF s1 wf din]
  have wf1: "wf_fs fs1" by (rule set_description_step_wf(1) [OF s1 wf])
  from din t1(2) have din1: "d \<in> set (project_dirs env fs1)" by simp
  from s2 t1(1) have s2': "set_parameters_step env inp d (get_project_config env fs1 d, fs1) =
      Inr (c2, fs2)" by simp
  note t2 = set_parameters_step_tracked [OF s2' wf1 din1]
  have wf2: "wf_fs fs2" by (rule set_parameters_step_wf(1) [OF s2 wf1])
  have f2: "find_project_by_id env fs2 i = Inr d"
    using t2(1) [of i] t1(3) [of i] f by simp
  note din2 = find_project_in_dirs [OF f2]
  from rename_step_Inr [OF s3 wf2 din2 f2] obtain d' where
    f': "find_project_by_id env fs' i = Inr d'"
    and c': "get_project_config env fs' d' = get_project_config env fs2 d"
    by blast
  from rd i f' have "create_projects env [d'] fs' = (Inr ps, fs'')"
    by (simp add: projects_read_def)
  then obtain p where ps: "ps = [p]" and cp: "create_project env d' fs' = (Inr p, fs'')"
    by (rule create_projects_single)
  have a: "parameters p = []" if "has_key inp ''parameters''"
    using read_parameters [OF cp, of "[]"] t2(2) [OF that] by (simp add: c')
  have b: "map (\<lambda>q. (qc_key q, qc_value q)) (parameters p) = dict_of_pairs kvs [] \<and>
           distinct (map qc_key (parameters p)) \<and>
           map_of (map (\<lambda>q. (qc_key q, qc_value q)) (parameters p)) =
             map_of (rev (map (\<lambda>(k, v). (k, JStr v)) kvs))"
    if np: "\<not> has_key inp ''parameters''" and ne: "kvs \<noteq> []" and ip: "indexed_pairs inp kvs"
  proof -
    from ip ne have "map_of inp (param_key 0) = Some (fst (kvs ! 0))"
      by (simp add: indexed_pairs_def)
    then have h0: "has_key inp (param_key 0)"
      by (auto simp: has_key_def dest: map_of_SomeD intro: rev_image_eqI)
    from parameters_loop_pairs [OF ip, of 0 "[]"]
    have l: "parameters_loop inp 0 [] = Inr (dict_of_pairs kvs [])" by simp
    from t2(3) [OF np h0] l
    have "map_of (get_project_config env fs' d') ''parameters'' = Some (JObj (dict_of_pairs kvs []))"
      by (simp add: c')
    from read_parameters [OF cp this]
    have e: "map (\<lambda>q. (qc_key q, qc_value q)) (parameters p) = dict_of_pairs kvs []" .
    have "map qc_key (parameters p) = map fst (map (\<lambda>q. (qc_key q, qc_value q)) (parameters p))"
      by (simp add: comp_def)
    with e have "distinct (map qc_key (parameters p))"
      using distinct_dict_of_pairs [of "[]" kvs] by simp
    moreover have "map_of (dict_of_pairs kvs []) = map_of (rev (map (\<lambda>(k, v). (k, JStr v)) kvs))"
      by (simp add: map_of_dict_of_pairs)
    ultimately show ?thesis using e by simp
  qed
  from ps a b show ?thesis by blast
qed

theorem C4_parameters_round_trip_witness:
  "projects_update example_ps_env example_set_parameters example_root =
     (Inr (), example_root_updated) \<and>
   projects_read example_ps_env [(''projectId'', ''1'')] example_root_updated =
     (Inr [example_project\<lparr>description := JStr ''momentum'',
             parameters := [\<lparr>qc_key = ''a'', qc_value = JStr ''1''\<rparr>,
                            \<lparr>qc_key = ''b'', qc_value = JStr ''2''\<rparr>]\<rparr>],
      example_root_updated) \<and>
   projects_update example_ps_env [(''projectId'', ''1''), (''parameters'', [])]
     example_root_updated = (Inr (), example_root_cleared) \<and>
   projects_read example_ps_env [(''projectId'', ''1'')] example_root_cleared =
     (Inr [example_project\<lparr>description := JStr ''momentum''\<rparr>], example_root_cleared) \<and>
   parameters (example_project\<lparr>description := JStr ''momentum'',
             parameters := [\<lparr>qc_key = ''a'', qc_value = JStr ''1''\<rparr>,
                            \<lparr>qc_key = ''b'', qc_value = JStr ''2''\<rparr>]\<rparr>) =
     [\<lparr>qc_key = ''a'', qc_value = JStr ''1''\<rparr>, \<lparr>qc_key = ''b'', qc_value = JStr ''2''\<rparr>] \<and>
   map_of (map (\<lambda>q. (qc_key q, qc_value q))
     (parameters (example_project\<lparr>description := JStr ''momentum'',
             parameters := [\<lparr>qc_key = ''a'', qc_value = JStr ''1''\<rparr>,
                            \<lparr>qc_key = ''b'', qc_value = JStr ''2''\<rparr>]\<rparr>))) =
     map_of (rev (map (\<lambda>(k, v). (k, JStr v)) [(''a'', ''1''), (''b'', ''2'')])) \<and>
   parameters (example_project\<lparr>description := JStr ''momentum''\<rparr>) = []"
proof -
  have g: "getitem example_set_parameters ''projectId'' = Inr ''1''"
    "getitem [(''projectId'', ''1''), (''parameters'', '''')] ''projectId'' = Inr ''1''"
    and n: "\<not> has_key example_set_parameters ''name''"
    "\<not> has_key [(''projectId'', ''1''), (''parameters'', '''')] ''name''"
    and p: "\<not> has_key example_set_parameters ''parameters''"
    "has_key [(''projectId'', ''1''), (''parameters'', '''')] ''parameters''"
    by (simp_all add: getitem_def has_key_def example_set_parameters_def)
  from C4_parameters_round_trip [OF example_root_wf g(1) example_set example_read_set,
      of "[(''a'', ''1''), (''b'', ''2'')]"] p(1) example_indexed_pairs
  have 1: "map_of (map (\<lambda>q. (qc_key q, qc_value q))
     (parameters (example_project\<lparr>description := JStr ''momentum'',
             parameters := [\<lparr>qc_key = ''a'', qc_value = JStr ''1''\<rparr>,
                            \<lparr>qc_key = ''b'', qc_value = JStr ''2''\<rparr>]\<rparr>))) =
     map_of (rev (map (\<lambda>(k, v). (k, JStr v)) [(''a'', ''1''), (''b'', ''2'')]))"
    by blast
  from C4_parameters_round_trip [OF example_root_updated_wf g(2) example_clear
      example_read_cleared] p(2)
  have 2: "parameters (example_project\<lparr>description := JStr ''momentum''\<rparr>) = []"
    by blast
  from 1 2 example_set example_read_set example_clear example_read_cleared
  show ?thesis by simp
qed

subsection \<open>Reading all projects\<close>

















end
